theory Spec2Isabelle
  imports Complex_Main
begin

section \<open>Conventions of the embedding\<close>

text \<open>
  The development embeds \<^verbatim>\<open>src/inference.py\<close>: the noise injection
  \<^verbatim>\<open>add_gaussian_noise\<close>, the evaluator \<^verbatim>\<open>run_inferece\<close> and the Grad-CAM
  explainer \<^verbatim>\<open>run_gradcam\<close>.

  Tensor entries are real numbers with exact arithmetic: rounding, infinities and NaN of the
  floating-point formats are not represented. Where the Python code would produce a NaN (a mean
  over no elements) the embedding stops with the outcome \<open>NanProduced\<close>, so every statement
  about a result \<open>Inr _\<close> speaks of a run on which all values stay numbers. The one statement
  that depends on rounding and overflow, the range of the heatmap, has its own embedding of
  the heatmap computation over floating-point values.

  Exceptions are values: a computation returns \<open>Inl e\<close> for a raised exception \<open>e\<close> and
  \<open>Inr v\<close> for a normal result \<open>v\<close>.
\<close>

datatype py_error =
    IndexError
  | TypeError
  | ValueError
  | OSError
  | NanProduced

text \<open>Python sequence indexing \<^verbatim>\<open>xs[k]\<close>: a negative index counts from the end.\<close>

definition py_index :: "nat \<Rightarrow> int \<Rightarrow> py_error + nat" where
  "py_index n k =
     (let j = (if k < 0 then int n + k else k)
      in if 0 \<le> j \<and> j < int n then Inr (nat j) else Inl IndexError)"

definition py_getitem :: "'a list \<Rightarrow> int \<Rightarrow> py_error + 'a" where
  "py_getitem xs k =
     (case py_index (length xs) k of Inl e \<Rightarrow> Inl e | Inr j \<Rightarrow> Inr (xs ! j))"

text \<open>Running a list of fallible computations in order, stopping at the first exception.\<close>

fun collect_results :: "('e + 'a) list \<Rightarrow> 'e + 'a list" where
  "collect_results [] = Inr []"
| "collect_results (r # rs) =
     (case r of
        Inl e \<Rightarrow> Inl e
      | Inr v \<Rightarrow> (case collect_results rs of Inl e \<Rightarrow> Inl e | Inr vs \<Rightarrow> Inr (v # vs)))"

section \<open>Input tensors and noise injection\<close>

text \<open>
  An input batch is a tensor: a shape and its entries in storage order. The operations of
  \<^verbatim>\<open>add_gaussian_noise\<close> are elementwise, so they act on the entries and keep the shape.
\<close>

record tensor =
  shape :: "nat list"
  data :: "real list"

text \<open>
  The random source is the stream of standard-normal draws still to come.
  \<^verbatim>\<open>torch.randn_like(t)\<close> takes one draw per entry of \<open>t\<close> and leaves the rest.
\<close>

type_synonym rng = "nat \<Rightarrow> real"

definition randn_like :: "rng \<Rightarrow> tensor \<Rightarrow> tensor \<times> rng" where
  "randn_like g t =
     (\<lparr>shape = shape t, data = map g [0..<length (data t)]\<rparr>,
      (\<lambda>k. g (k + length (data t))))"

text \<open>\<^verbatim>\<open>torch.clamp(x, lo, hi)\<close> on one entry.\<close>

definition clamp :: "real \<Rightarrow> real \<Rightarrow> real \<Rightarrow> real" where
  "clamp x lo hi = min (max x lo) hi"

definition tensor_clamp :: "tensor \<Rightarrow> real \<Rightarrow> real \<Rightarrow> tensor" where
  "tensor_clamp t lo hi = \<lparr>shape = shape t, data = map (\<lambda>x. clamp x lo hi) (data t)\<rparr>"

text \<open>
  \<^verbatim>\<open>
  def add_gaussian_noise(tensor, mean=0.0, std=0.1, multiplier=1.0):
      noise = torch.randn_like(tensor) * std * multiplier + mean
      return torch.clamp(tensor + noise, 0., 1.)
  \<close>
  The random source is threaded through: the function returns the source it leaves behind.
\<close>

definition add_gaussian_noise :: "rng \<Rightarrow> tensor \<Rightarrow> real \<Rightarrow> real \<Rightarrow> real \<Rightarrow> tensor \<times> rng" where
  "add_gaussian_noise g t mean std multiplier =
     (case randn_like g t of
        (z, g') \<Rightarrow>
          (let noise = map (\<lambda>x. x * std * multiplier + mean) (data z)
           in (tensor_clamp \<lparr>shape = shape t, data = map2 (+) (data t) noise\<rparr> 0 1, g')))"

text \<open>
  Lines 45-46 of \<^verbatim>\<open>run_inferece\<close> and lines 123-124 of \<^verbatim>\<open>run_gradcam\<close>:
  \<^verbatim>\<open>
  if noise_multiplier > 0:
      inputs = add_gaussian_noise(inputs, std=0.1, multiplier=noise_multiplier)
  \<close>
  The result is the tensor handed to the model, with the random source after the step.
\<close>

definition inference_model_input :: "real \<Rightarrow> rng \<Rightarrow> tensor \<Rightarrow> tensor \<times> rng" where
  "inference_model_input noise_multiplier g inputs =
     (if noise_multiplier > 0
      then add_gaussian_noise g inputs 0 (1 / 10) noise_multiplier
      else (inputs, g))"

definition gradcam_model_input :: "real \<Rightarrow> rng \<Rightarrow> tensor \<Rightarrow> tensor \<times> rng" where
  "gradcam_model_input noise_multiplier g inputs =
     (if noise_multiplier > 0
      then add_gaussian_noise g inputs 0 (1 / 10) noise_multiplier
      else (inputs, g))"

text \<open>
  The loader's transform ends with \<^verbatim>\<open>ToTensor()\<close>, which yields entries in \<open>[0, 1]\<close>, and
  \<^verbatim>\<open>Normalize((0.5,), (0.5,))\<close>, which maps an entry \<open>x\<close> to \<open>(x - 0.5) / 0.5\<close>.
\<close>

definition normalize_entry :: "real \<Rightarrow> real" where
  "normalize_entry x = (x - 1 / 2) / (1 / 2)"

section \<open>The Grad-CAM heatmap of one sample\<close>

text \<open>
  The hooks of \<^verbatim>\<open>run_gradcam\<close> log 4-dimensional tensors, indexed as
  \<open>[sample][channel][row][column]\<close>; they are nested lists following that index structure.
\<close>

type_synonym fmap = "real list list"
type_synonym act3 = "fmap list"
type_synonym act4 = "act3 list"

text \<open>
  \<^verbatim>\<open>pooled_grad = torch.mean(gradients[-1][i], dim=(1, 2))\<close>: one mean per channel, over
  all entries of the channel. The mean of no entries is a NaN.
\<close>

definition channel_spatial_mean :: "fmap \<Rightarrow> py_error + real" where
  "channel_spatial_mean ch =
     (if concat ch = [] then Inl NanProduced
      else Inr (sum_list (concat ch) / real (length (concat ch))))"

definition pooled_gradient :: "act3 \<Rightarrow> py_error + real list" where
  "pooled_gradient g = collect_results (map channel_spatial_mean g)"

text \<open>
  \<^verbatim>\<open>activation = activations[-1][i]\<close> does not copy: it is a view of slice \<open>i\<close> of the last
  entry of the log. A view is the pair of the entry's position in the log and the slice; reads
  and writes through the view go to the log.
\<close>

definition take_view :: "act4 list \<Rightarrow> nat \<Rightarrow> py_error + (nat \<times> nat)" where
  "take_view acts i =
     (case py_index (length acts) (- 1) of
        Inl e \<Rightarrow> Inl e
      | Inr n \<Rightarrow> (if i < length (acts ! n) then Inr (n, i) else Inl IndexError))"

definition view_read :: "act4 list \<Rightarrow> nat \<times> nat \<Rightarrow> act3" where
  "view_read acts v = acts ! fst v ! snd v"

text \<open>\<^verbatim>\<open>activation[j, :, :] *= w\<close>: an in-place update of channel \<open>j\<close> through the view.\<close>

definition view_scale_channel :: "act4 list \<Rightarrow> nat \<times> nat \<Rightarrow> nat \<Rightarrow> real \<Rightarrow> py_error + act4 list" where
  "view_scale_channel acts v j w =
     (let a = view_read acts v
      in if j < length a
         then Inr (acts[fst v := (acts ! fst v)[snd v := a[j := map (map (\<lambda>x. x * w)) (a ! j)]]])
         else Inl IndexError)"

text \<open>
  \<^verbatim>\<open>
  for j in range(len(pooled_grad)):
      activation[j, :, :] *= pooled_grad[j]
  \<close>
  The third argument is the list of indices still to visit.
\<close>

fun scale_channels :: "nat \<times> nat \<Rightarrow> real list \<Rightarrow> nat list \<Rightarrow> act4 list \<Rightarrow> py_error + act4 list" where
  "scale_channels v pooled_grad [] acts = Inr acts"
| "scale_channels v pooled_grad (j # js) acts =
     (case view_scale_channel acts v j (pooled_grad ! j) of
        Inl e \<Rightarrow> Inl e
      | Inr acts' \<Rightarrow> scale_channels v pooled_grad js acts')"

text \<open>
  \<^verbatim>\<open>torch.mean(activation, dim=0)\<close>: the entrywise mean of the channels. Over no channels
  it is a map of NaN.
\<close>

definition channel_mean :: "act3 \<Rightarrow> py_error + fmap" where
  "channel_mean a =
     (if a = [] then Inl NanProduced
      else Inr (map (map (\<lambda>s. s / real (length a))) (foldl (map2 (map2 (+))) (hd a) (tl a))))"

text \<open>\<^verbatim>\<open>np.maximum(heatmap, 0)\<close>.\<close>

definition np_maximum0 :: "fmap \<Rightarrow> fmap" where
  "np_maximum0 h = map (map (\<lambda>x. max x 0)) h"

text \<open>\<^verbatim>\<open>heatmap.max()\<close>: the largest entry; numpy raises \<^verbatim>\<open>ValueError\<close> on an empty array.\<close>

definition np_max :: "fmap \<Rightarrow> py_error + real" where
  "np_max h = (case concat h of [] \<Rightarrow> Inl ValueError | x # xs \<Rightarrow> Inr (fold max xs x))"

text \<open>\<^verbatim>\<open>heatmap /= (heatmap.max() + 1e-8)\<close>.\<close>

definition normalize_heatmap :: "fmap \<Rightarrow> py_error + fmap" where
  "normalize_heatmap h =
     (case np_max h of
        Inl e \<Rightarrow> Inl e
      | Inr m \<Rightarrow> Inr (map (map (\<lambda>x. x / (m + 1 / 10 ^ 8))) h))"

text \<open>
  Lines 140-148 of \<^verbatim>\<open>run_gradcam\<close>, for sample \<open>i\<close> of the current batch:
  \<^verbatim>\<open>
  pooled_grad = torch.mean(gradients[-1][i], dim=(1, 2))
  activation = activations[-1][i]
  for j in range(len(pooled_grad)):
      activation[j, :, :] *= pooled_grad[j]
  heatmap = torch.mean(activation, dim=0).cpu().detach().numpy()
  heatmap = np.maximum(heatmap, 0)
  heatmap /= (heatmap.max() + 1e-8)
  \<close>
  The result is the heatmap together with the activations log after the in-place updates.
\<close>

definition gradcam_heatmap :: "act4 list \<Rightarrow> act4 list \<Rightarrow> nat \<Rightarrow> py_error + (fmap \<times> act4 list)" where
  "gradcam_heatmap gradients activations i =
     (case py_getitem gradients (- 1) of Inl e \<Rightarrow> Inl e | Inr g \<Rightarrow>
      case py_getitem g (int i) of Inl e \<Rightarrow> Inl e | Inr gi \<Rightarrow>
      case pooled_gradient gi of Inl e \<Rightarrow> Inl e | Inr pooled_grad \<Rightarrow>
      case take_view activations i of Inl e \<Rightarrow> Inl e | Inr v \<Rightarrow>
      case scale_channels v pooled_grad [0..<length pooled_grad] activations of
        Inl e \<Rightarrow> Inl e | Inr activations' \<Rightarrow>
      case channel_mean (view_read activations' v) of Inl e \<Rightarrow> Inl e | Inr heatmap \<Rightarrow>
      case normalize_heatmap (np_maximum0 heatmap) of
        Inl e \<Rightarrow> Inl e | Inr heatmap' \<Rightarrow> Inr (heatmap', activations'))"

text \<open>
  The computation as the specification words it, on the captured activation \<open>a\<close> and gradient
  \<open>g\<close> of one sample, without a log: each channel scaled by the spatial mean of its gradient
  channel, the channels combined into one map, negatives clamped, the map divided by its
  maximum plus \<open>1e-8\<close>. \<open>heatmap_by_sum\<close> combines the channels by their sum, as the
  specification says; \<open>heatmap_by_mean\<close> combines them by their mean.
\<close>

definition scaled_activation :: "real list \<Rightarrow> act3 \<Rightarrow> act3" where
  "scaled_activation ws a = map2 (\<lambda>w ch. map (map (\<lambda>x. x * w)) ch) ws a"

definition channel_sum :: "act3 \<Rightarrow> py_error + fmap" where
  "channel_sum a =
     (if a = [] then Inl NanProduced else Inr (foldl (map2 (map2 (+))) (hd a) (tl a)))"

definition heatmap_by_sum :: "act3 \<Rightarrow> act3 \<Rightarrow> py_error + fmap" where
  "heatmap_by_sum g a =
     (case pooled_gradient g of Inl e \<Rightarrow> Inl e | Inr ws \<Rightarrow>
      case channel_sum (scaled_activation ws a) of Inl e \<Rightarrow> Inl e | Inr m \<Rightarrow>
      normalize_heatmap (np_maximum0 m))"

definition heatmap_by_mean :: "act3 \<Rightarrow> act3 \<Rightarrow> py_error + fmap" where
  "heatmap_by_mean g a =
     (case pooled_gradient g of Inl e \<Rightarrow> Inl e | Inr ws \<Rightarrow>
      case channel_mean (scaled_activation ws a) of Inl e \<Rightarrow> Inl e | Inr m \<Rightarrow>
      normalize_heatmap (np_maximum0 m))"

section \<open>The heatmap in floating-point arithmetic\<close>

text \<open>
  The tensors of the program hold 32-bit floating-point numbers: the result of a product, a
  sum or a quotient is rounded, it is an infinity when it is too large, and it is NaN when it
  is undefined. For the statement about the range of the heatmap, lines 140-148 are embedded a
  second time over such values, on the gradient \<^verbatim>\<open>gradients[-1][i]\<close> and the activation
  \<^verbatim>\<open>activations[-1][i]\<close> of one sample (the log and the view are treated above).

  A value is a real number, an infinity or NaN. The format enters through its rounding \<open>rnd\<close>,
  which maps the exact result of an operation on numbers to the value stored; the operations
  on infinities and NaN are those of IEEE 754. The two zeros of the format are one value: the
  sign of a zero matters only in a division by it, and there the zero is taken as positive,
  which is the sign of every zero divisor that can arise below (a count, or a maximum of
  clamped values plus \<open>1e-8\<close>).
\<close>

datatype fval = Num real | PInf | NInf | NaN

fun f_add :: "(real \<Rightarrow> fval) \<Rightarrow> fval \<Rightarrow> fval \<Rightarrow> fval" where
  "f_add rnd NaN b = NaN"
| "f_add rnd a NaN = NaN"
| "f_add rnd (Num x) (Num y) = rnd (x + y)"
| "f_add rnd PInf NInf = NaN"
| "f_add rnd NInf PInf = NaN"
| "f_add rnd PInf b = PInf"
| "f_add rnd a PInf = PInf"
| "f_add rnd NInf b = NInf"
| "f_add rnd a NInf = NInf"

fun f_mul :: "(real \<Rightarrow> fval) \<Rightarrow> fval \<Rightarrow> fval \<Rightarrow> fval" where
  "f_mul rnd NaN b = NaN"
| "f_mul rnd a NaN = NaN"
| "f_mul rnd (Num x) (Num y) = rnd (x * y)"
| "f_mul rnd (Num x) PInf = (if x = 0 then NaN else if 0 < x then PInf else NInf)"
| "f_mul rnd (Num x) NInf = (if x = 0 then NaN else if 0 < x then NInf else PInf)"
| "f_mul rnd PInf (Num y) = (if y = 0 then NaN else if 0 < y then PInf else NInf)"
| "f_mul rnd NInf (Num y) = (if y = 0 then NaN else if 0 < y then NInf else PInf)"
| "f_mul rnd PInf PInf = PInf"
| "f_mul rnd PInf NInf = NInf"
| "f_mul rnd NInf PInf = NInf"
| "f_mul rnd NInf NInf = PInf"

fun f_div :: "(real \<Rightarrow> fval) \<Rightarrow> fval \<Rightarrow> fval \<Rightarrow> fval" where
  "f_div rnd NaN b = NaN"
| "f_div rnd a NaN = NaN"
| "f_div rnd (Num x) (Num y) =
     (if y = 0 then (if x = 0 then NaN else if 0 < x then PInf else NInf) else rnd (x / y))"
| "f_div rnd (Num x) PInf = Num 0"
| "f_div rnd (Num x) NInf = Num 0"
| "f_div rnd PInf (Num y) = (if 0 \<le> y then PInf else NInf)"
| "f_div rnd NInf (Num y) = (if 0 \<le> y then NInf else PInf)"
| "f_div rnd PInf PInf = NaN"
| "f_div rnd PInf NInf = NaN"
| "f_div rnd NInf PInf = NaN"
| "f_div rnd NInf NInf = NaN"

text \<open>
  The order of the values that are not NaN, and what is used of a rounding: it returns \<open>0\<close>
  and \<open>1\<close> unchanged and \<open>1e-8\<close> as a positive number, it never returns NaN, it is monotone, and
  a number it returns is returned unchanged when rounded again. The rounding to nearest of the
  32-bit format (like the other rounding modes of IEEE 754) has these properties.
\<close>

fun f_le :: "fval \<Rightarrow> fval \<Rightarrow> bool" where
  "f_le NaN b = False"
| "f_le a NaN = False"
| "f_le NInf b = True"
| "f_le a PInf = True"
| "f_le (Num x) (Num y) = (x \<le> y)"
| "f_le PInf b = False"
| "f_le a NInf = False"

definition float_rounding :: "(real \<Rightarrow> fval) \<Rightarrow> bool" where
  "float_rounding rnd \<longleftrightarrow>
     rnd 0 = Num 0 \<and> rnd 1 = Num 1
     \<and> (\<exists>e. 0 < e \<and> rnd (1 / 10 ^ 8) = Num e)
     \<and> (\<forall>x. rnd x \<noteq> NaN)
     \<and> (\<forall>x y. x \<le> y \<longrightarrow> f_le (rnd x) (rnd y))
     \<and> (\<forall>x v. rnd x = Num v \<longrightarrow> rnd v = Num v)"

text \<open>
  The simplest such rounding with the range of the 32-bit format, whose largest number lies
  just below \<open>2^128\<close>: a result of magnitude \<open>2^128\<close> or more becomes an infinity, as it does in
  the 32-bit format, and a smaller one is kept as it is. On a result that the 32-bit format
  represents exactly (a power of two below \<open>2^128\<close>, for one) and on a result of magnitude
  \<open>2^128\<close> or more it gives what the 32-bit format gives.
\<close>

definition exact_in_float32_range :: "real \<Rightarrow> fval" where
  "exact_in_float32_range x =
     (if 2 ^ 128 \<le> x then PInf else if x \<le> - (2 ^ 128) then NInf else Num x)"

text \<open>A value is in the unit interval when it is a number between \<open>0\<close> and \<open>1\<close>.\<close>

definition in_unit_interval :: "fval \<Rightarrow> bool" where
  "in_unit_interval x = (case x of Num v \<Rightarrow> 0 \<le> v \<and> v \<le> 1 | _ \<Rightarrow> False)"

type_synonym float_map = "fval list list"

text \<open>
  \<^verbatim>\<open>pooled_grad = torch.mean(gradients[-1][i], dim=(1, 2))\<close>: per channel, the sum of the
  entries divided by their number; over no entries it is \<open>0 / 0\<close>, a NaN. The library does not
  fix the order in which a sum is accumulated; it is taken from left to right.
\<close>

definition float_spatial_mean :: "(real \<Rightarrow> fval) \<Rightarrow> float_map \<Rightarrow> fval" where
  "float_spatial_mean rnd ch =
     f_div rnd (foldl (f_add rnd) (Num 0) (concat ch)) (Num (real (length (concat ch))))"

definition float_pooled_gradient :: "(real \<Rightarrow> fval) \<Rightarrow> float_map list \<Rightarrow> fval list" where
  "float_pooled_gradient rnd g = map (float_spatial_mean rnd) g"

text \<open>
  \<^verbatim>\<open>
  for j in range(len(pooled_grad)):
      activation[j, :, :] *= pooled_grad[j]
  \<close>
  on the activation of the sample; the third argument is the list of indices still to visit.
\<close>

fun float_scale_channels ::
  "(real \<Rightarrow> fval) \<Rightarrow> fval list \<Rightarrow> nat list \<Rightarrow> float_map list \<Rightarrow> py_error + float_map list" where
  "float_scale_channels rnd pooled_grad [] a = Inr a"
| "float_scale_channels rnd pooled_grad (j # js) a =
     (if j < length a
      then float_scale_channels rnd pooled_grad js
             (a[j := map (map (\<lambda>x. f_mul rnd x (pooled_grad ! j))) (a ! j)])
      else Inl IndexError)"

text \<open>
  \<^verbatim>\<open>torch.mean(activation, dim=0)\<close>: the entrywise sum of the channels divided by their
  number. Over no channels it is a map of NaN whose shape the nested lists do not record; as in
  the first embedding the outcome is then \<open>NanProduced\<close>.
\<close>

definition float_channel_mean :: "(real \<Rightarrow> fval) \<Rightarrow> float_map list \<Rightarrow> py_error + float_map" where
  "float_channel_mean rnd a =
     (if a = [] then Inl NanProduced
      else Inr (map (map (\<lambda>s. f_div rnd s (Num (real (length a)))))
                 (foldl (map2 (map2 (f_add rnd))) (hd a) (tl a))))"

text \<open>Lines 140-146: the weighted map, before it is clamped.\<close>

definition float_weighted_map ::
  "(real \<Rightarrow> fval) \<Rightarrow> float_map list \<Rightarrow> float_map list \<Rightarrow> py_error + float_map" where
  "float_weighted_map rnd g a =
     (let pooled_grad = float_pooled_gradient rnd g
      in case float_scale_channels rnd pooled_grad [0..<length pooled_grad] a of
           Inl e \<Rightarrow> Inl e
         | Inr a' \<Rightarrow> float_channel_mean rnd a')"

text \<open>
  \<^verbatim>\<open>np.maximum(heatmap, 0)\<close> on one entry: a NaN stays a NaN. \<^verbatim>\<open>heatmap.max()\<close>: the
  largest entry, and NaN as soon as one entry is NaN; numpy raises \<^verbatim>\<open>ValueError\<close> on an empty
  array.
\<close>

definition f_maximum0 :: "fval \<Rightarrow> fval" where
  "f_maximum0 x = (case x of Num v \<Rightarrow> Num (max v 0) | PInf \<Rightarrow> PInf | NInf \<Rightarrow> Num 0 | NaN \<Rightarrow> NaN)"

fun f_max2 :: "fval \<Rightarrow> fval \<Rightarrow> fval" where
  "f_max2 NaN b = NaN"
| "f_max2 a NaN = NaN"
| "f_max2 PInf b = PInf"
| "f_max2 a PInf = PInf"
| "f_max2 NInf b = b"
| "f_max2 a NInf = a"
| "f_max2 (Num x) (Num y) = Num (max x y)"

definition float_np_max :: "float_map \<Rightarrow> py_error + fval" where
  "float_np_max h = (case concat h of [] \<Rightarrow> Inl ValueError | x # xs \<Rightarrow> Inr (fold f_max2 xs x))"

text \<open>
  Lines 147-148:
  \<^verbatim>\<open>
  heatmap = np.maximum(heatmap, 0)
  heatmap /= (heatmap.max() + 1e-8)
  \<close>
  The constant is the real number \<open>1e-8\<close>, and the sum is rounded once.
\<close>

definition float_normalize :: "(real \<Rightarrow> fval) \<Rightarrow> float_map \<Rightarrow> py_error + float_map" where
  "float_normalize rnd wm =
     (let h = map (map f_maximum0) wm
      in case float_np_max h of
           Inl e \<Rightarrow> Inl e
         | Inr m \<Rightarrow> Inr (map (map (\<lambda>x. f_div rnd x (f_add rnd m (Num (1 / 10 ^ 8))))) h))"

definition float_heatmap ::
  "(real \<Rightarrow> fval) \<Rightarrow> float_map list \<Rightarrow> float_map list \<Rightarrow> py_error + float_map" where
  "float_heatmap rnd g a =
     (case float_weighted_map rnd g a of Inl e \<Rightarrow> Inl e | Inr wm \<Rightarrow> float_normalize rnd wm)"

section \<open>The model\<close>

text \<open>
  The trained model is supplied by the caller. Of it the code uses: the list
  \<^verbatim>\<open>list(model.modules())\<close>; the call \<^verbatim>\<open>model(inputs)\<close>, giving one row of logits per
  sample; and, through the hooks registered on one module, that module's output during the
  forward pass and the gradient \<^verbatim>\<open>grad_output[0]\<close> arriving at it when
  \<^verbatim>\<open>outputs[i, c].backward(retain_graph=True)\<close> runs. Both are functions of the module the
  hooks are registered on and of the batch. The backward pass works on the retained graph of the
  forward pass, and the code has by then written into the logged output of the module; so the
  gradient is also a function of the activations log at that moment, beside \<open>i\<close> and \<open>c\<close>, and
  the backward pass may raise.
\<close>

record 'm model =
  modules :: "'m list"
  forward :: "tensor \<Rightarrow> real list list"
  hooked_output :: "'m \<Rightarrow> tensor \<Rightarrow> act4"
  hooked_grad_output :: "'m \<Rightarrow> tensor \<Rightarrow> act4 list \<Rightarrow> nat \<Rightarrow> nat \<Rightarrow> py_error + act4"

text \<open>
  \<^verbatim>\<open>_, preds = torch.max(outputs, 1)\<close>: per row, the index of the first largest logit;
  \<^verbatim>\<open>torch.max\<close> raises on a row without entries.
\<close>

definition argmax_index :: "real list \<Rightarrow> nat" where
  "argmax_index row = length (takeWhile (\<lambda>x. x \<noteq> fold max (tl row) (hd row)) row)"

definition argmax :: "real list \<Rightarrow> py_error + nat" where
  "argmax row = (if row = [] then Inl IndexError else Inr (argmax_index row))"

definition row_predictions :: "real list list \<Rightarrow> py_error + nat list" where
  "row_predictions outputs = collect_results (map argmax outputs)"

text \<open>\<^verbatim>\<open>len(inputs)\<close>: the size of the first dimension; a 0-dimensional tensor has no length.\<close>

definition tensor_len :: "tensor \<Rightarrow> py_error + nat" where
  "tensor_len t = (case shape t of [] \<Rightarrow> Inl TypeError | n # _ \<Rightarrow> Inr n)"

section \<open>The evaluator\<close>

text \<open>
  Lines 42-55 of \<^verbatim>\<open>run_inferece\<close>: the loop over the batches of the loader, collecting the
  predictions and the labels.
\<close>

fun collect_predictions ::
  "'m model \<Rightarrow> real \<Rightarrow> rng \<Rightarrow> (tensor \<times> nat list) list \<Rightarrow> nat list \<Rightarrow> nat list
     \<Rightarrow> py_error + (nat list \<times> nat list)" where
  "collect_predictions m noise_multiplier g [] all_preds all_labels = Inr (all_preds, all_labels)"
| "collect_predictions m noise_multiplier g ((inputs, labels) # rest) all_preds all_labels =
     (case inference_model_input noise_multiplier g inputs of
        (x, g') \<Rightarrow>
          (case row_predictions (forward m x) of
             Inl e \<Rightarrow> Inl e
           | Inr preds \<Rightarrow>
               collect_predictions m noise_multiplier g' rest
                 (all_preds @ preds) (all_labels @ labels)))"

text \<open>
  \<^verbatim>\<open>cm = confusion_matrix(all_labels, all_preds)\<close> (line 59) is scikit-learn's function,
  called without a \<^verbatim>\<open>labels\<close> argument: the labels of the matrix are then the distinct values
  occurring in either list, in increasing order, and entry \<open>(i, j)\<close> counts the samples whose
  actual label is the \<open>i\<close>-th and whose predicted label is the \<open>j\<close>-th of them. Lists of different
  lengths are refused.
\<close>

definition unique_labels :: "nat list \<Rightarrow> nat list \<Rightarrow> nat list" where
  "unique_labels y_true y_pred = sort (remdups (y_true @ y_pred))"

definition count_pairs :: "(nat \<times> nat) list \<Rightarrow> nat \<Rightarrow> nat \<Rightarrow> nat" where
  "count_pairs samples a p = length (filter (\<lambda>s. s = (a, p)) samples)"

definition confusion_matrix :: "nat list \<Rightarrow> nat list \<Rightarrow> py_error + nat list list" where
  "confusion_matrix y_true y_pred =
     (if length y_true \<noteq> length y_pred then Inl ValueError
      else let labels = unique_labels y_true y_pred
           in Inr (map (\<lambda>a. map (\<lambda>p. count_pairs (zip y_true y_pred) a p) labels) labels))"

text \<open>The sums the specification speaks of: of a row, of a column, of the diagonal.\<close>

definition row_sum :: "nat list list \<Rightarrow> nat \<Rightarrow> nat" where
  "row_sum cm i = sum_list (cm ! i)"

definition column_sum :: "nat list list \<Rightarrow> nat \<Rightarrow> nat" where
  "column_sum cm j = sum_list (map (\<lambda>row. row ! j) cm)"

definition diagonal_sum :: "nat list list \<Rightarrow> nat" where
  "diagonal_sum cm = sum_list (map (\<lambda>i. cm ! i ! i) [0..<length cm])"

definition correct_predictions :: "nat list \<Rightarrow> nat list \<Rightarrow> nat" where
  "correct_predictions y_true y_pred = length (filter (\<lambda>(a, p). a = p) (zip y_true y_pred))"

subsection \<open>The metrics table file\<close>

text \<open>
  The file system, as far as the metrics table needs it. A location is the list of the names
  leading to it from the root directory. It holds a directory, a text file (the list of its
  lines, each ended by a line terminator, as pandas writes them), a file of any other content
  (bytes that are not terminated text lines), or nothing. The state of the file system is the
  content of every location together with the working directory of the process. Symbolic links
  and access permissions are not represented: a name leads to the location it spells, and every
  directory may be searched and written to.
\<close>

datatype fs_node = Directory | TextFile "string list" | OtherFile

record filesystem =
  nodes :: "string list \<Rightarrow> fs_node option"
  cwd :: "string list"

text \<open>The components of a path: \<^verbatim>\<open>path.split('/')\<close>.\<close>

fun split_path :: "string \<Rightarrow> string list" where
  "split_path [] = [[]]"
| "split_path (c # cs) =
     (if c = CHR ''/'' then [] # split_path cs
      else case split_path cs of [] \<Rightarrow> [[c]] | p # ps \<Rightarrow> (c # p) # ps)"

text \<open>
  Path resolution as the operating system does it, component by component from a starting
  directory: every component is looked up in a directory, so the location reached so far must
  hold one; an empty component (from a doubled or a trailing slash) and \<^verbatim>\<open>.\<close> stay there,
  \<^verbatim>\<open>..\<close> goes to the parent, and a name goes to the entry of that name, which need not
  exist when the name is the last component. A path that begins with a slash starts at the root,
  any other at the working directory; the empty path does not resolve. A failed resolution is
  an \<^verbatim>\<open>OSError\<close> (\<^verbatim>\<open>FileNotFoundError\<close> and \<^verbatim>\<open>NotADirectoryError\<close> are subclasses of it, as
  is the \<^verbatim>\<open>IsADirectoryError\<close> below).
\<close>

fun walk :: "(string list \<Rightarrow> fs_node option) \<Rightarrow> string list \<Rightarrow> string list
     \<Rightarrow> py_error + string list" where
  "walk nd cur [] = Inr cur"
| "walk nd cur (c # cs) =
     (if nd cur \<noteq> Some Directory then Inl OSError
      else if c = [] \<or> c = ''.'' then walk nd cur cs
      else if c = ''..'' then walk nd (butlast cur) cs
      else walk nd (cur @ [c]) cs)"

definition resolve :: "filesystem \<Rightarrow> string \<Rightarrow> py_error + string list" where
  "resolve fs path =
     (if path = [] then Inl OSError
      else walk (nodes fs) (if hd path = CHR ''/'' then [] else cwd fs) (split_path path))"

text \<open>\<^verbatim>\<open>os.path.exists(path)\<close>: whether the path resolves to something that is there.\<close>

definition path_exists :: "filesystem \<Rightarrow> string \<Rightarrow> bool" where
  "path_exists fs path =
     (case resolve fs path of Inl e \<Rightarrow> False | Inr loc \<Rightarrow> nodes fs loc \<noteq> None)"

text \<open>
  A last component that is empty, \<^verbatim>\<open>.\<close> or \<^verbatim>\<open>..\<close> can only name a directory; any other is
  the name of an entry.
\<close>

definition is_filename :: "string \<Rightarrow> bool" where
  "is_filename c = (c \<noteq> [] \<and> c \<noteq> ''.'' \<and> c \<noteq> ''..'')"

text \<open>
  What pandas contributes to the file: the text it writes for the noise multiplier as the caller
  passed it (an integer or a float), the text it writes for a floating-point score, and whether
  it infers a compression from the extension of the path, in which case the bytes written are
  a compressed stream and not text lines.
\<close>

record csv_writer =
  noise_repr :: "real \<Rightarrow> string"
  float_repr :: "real \<Rightarrow> string"
  infers_compression :: "string \<Rightarrow> bool"

text \<open>
  \<^verbatim>\<open>DataFrame.to_csv(path, index=False, mode='a', header=h)\<close>: the file is opened for
  appending, which fails when the path does not resolve (pandas itself refuses a path whose
  parent is not a directory, with the same exception class) and when it names a directory, as
  a path does whose last component is not a name (\<^verbatim>\<open>out/\<close> beside a directory \<^verbatim>\<open>out\<close>).
  Otherwise the header line (when \<open>h\<close>) and the data lines are appended to the file, which is
  created when missing.
\<close>

definition to_csv_append ::
  "csv_writer \<Rightarrow> filesystem \<Rightarrow> string \<Rightarrow> bool \<Rightarrow> string \<Rightarrow> string list
     \<Rightarrow> py_error + filesystem" where
  "to_csv_append pd fs path header header_line data_lines =
     (case resolve fs path of
        Inl e \<Rightarrow> Inl e
      | Inr loc \<Rightarrow>
          if \<not> is_filename (last (split_path path)) then Inl OSError
          else let new_lines = (if header then [header_line] else []) @ data_lines
               in case nodes fs loc of
                    Some Directory \<Rightarrow> Inl OSError
                  | Some (TextFile old) \<Rightarrow>
                      Inr (fs\<lparr>nodes := (nodes fs)(loc \<mapsto>
                             (if infers_compression pd path then OtherFile
                              else TextFile (old @ new_lines)))\<rparr>)
                  | Some OtherFile \<Rightarrow> Inr (fs\<lparr>nodes := (nodes fs)(loc \<mapsto> OtherFile)\<rparr>)
                  | None \<Rightarrow>
                      Inr (fs\<lparr>nodes := (nodes fs)(loc \<mapsto>
                             (if infers_compression pd path then OtherFile
                              else TextFile new_lines))\<rparr>))"

text \<open>A line of comma-separated fields.\<close>

fun csv_line :: "string list \<Rightarrow> string" where
  "csv_line [] = []"
| "csv_line [f] = f"
| "csv_line (f # fs) = f @ '','' @ csv_line fs"

definition metrics_header :: string where
  "metrics_header = csv_line [''Noise Multiplier'', ''F1 Score'', ''Precision'', ''Recall'']"

text \<open>
  Lines 72-79 of \<^verbatim>\<open>run_inferece\<close>:
  \<^verbatim>\<open>
  metrics = {"Noise Multiplier": [noise_multiplier], "F1 Score": [f1],
             "Precision": [precision], "Recall": [recall]}
  metrics_df = pd.DataFrame(metrics)
  metrics_df.to_csv(metrics_path, index=False, mode='a',
                    header=not os.path.exists(metrics_path))
  \<close>
\<close>

definition metrics_row :: "csv_writer \<Rightarrow> real \<Rightarrow> real \<Rightarrow> real \<Rightarrow> real \<Rightarrow> string" where
  "metrics_row pd noise_multiplier f1 precision recall =
     csv_line (noise_repr pd noise_multiplier # map (float_repr pd) [f1, precision, recall])"

definition write_metrics ::
  "csv_writer \<Rightarrow> filesystem \<Rightarrow> string \<Rightarrow> real \<Rightarrow> real \<Rightarrow> real \<Rightarrow> real
     \<Rightarrow> py_error + filesystem" where
  "write_metrics pd fs metrics_path noise_multiplier f1 precision recall =
     to_csv_append pd fs metrics_path (\<not> path_exists fs metrics_path) metrics_header
       [metrics_row pd noise_multiplier f1 precision recall]"

text \<open>
  \<^verbatim>\<open>run_inferece\<close> up to the metrics table (lines 37-79). The loader and the class names
  are the result of \<^verbatim>\<open>get_test_loader\<close>; the three scores are scikit-learn's, taken as
  functions of the two label lists; \<^verbatim>\<open>classification_report\<close> (line 58) raises when the number
  of distinct labels differs from the number of class names. The result is the confusion matrix
  of line 59 and the file system after line 79. The printing, and the plot that follows line
  79, are not modelled.
\<close>

record score_functions =
  f1_score :: "nat list \<Rightarrow> nat list \<Rightarrow> real"
  precision_score :: "nat list \<Rightarrow> nat list \<Rightarrow> real"
  recall_score :: "nat list \<Rightarrow> nat list \<Rightarrow> real"

definition run_inferece ::
  "'m model \<Rightarrow> (tensor \<times> nat list) list \<Rightarrow> string list \<Rightarrow> score_functions \<Rightarrow> csv_writer
     \<Rightarrow> string \<Rightarrow> real \<Rightarrow> rng \<Rightarrow> filesystem \<Rightarrow> py_error + (nat list list \<times> filesystem)" where
  "run_inferece m test_loader classes scores pd metrics_path noise_multiplier g fs =
     (case collect_predictions m noise_multiplier g test_loader [] [] of
        Inl e \<Rightarrow> Inl e
      | Inr (all_preds, all_labels) \<Rightarrow>
          if length (unique_labels all_labels all_preds) \<noteq> length classes then Inl ValueError
          else case confusion_matrix all_labels all_preds of
                 Inl e \<Rightarrow> Inl e
               | Inr cm \<Rightarrow>
                   (case write_metrics pd fs metrics_path noise_multiplier
                           (f1_score scores all_labels all_preds)
                           (precision_score scores all_labels all_preds)
                           (recall_score scores all_labels all_preds) of
                      Inl e \<Rightarrow> Inl e
                    | Inr fs' \<Rightarrow> Inr (cm, fs')))"

section \<open>The Grad-CAM explainer\<close>

text \<open>
  What \<^verbatim>\<open>run_gradcam\<close> does to the outside world is the sequence of its calls
  \<^verbatim>\<open>os.makedirs(path, exist_ok=flag)\<close> and \<^verbatim>\<open>cv2.imwrite(path, image)\<close>, in order.
  \<^verbatim>\<open>os.makedirs\<close> returns or raises (it raises for the empty path, for a path through a file,
  without permission): its outcome is the answer \<open>os_makedirs path flag\<close> of the environment,
  \<open>None\<close> when the call returns and \<open>Some e\<close> when it raises \<open>e\<close>. \<^verbatim>\<open>cv2.imwrite\<close> reports a
  failed write by its return value, which the code ignores, and is taken to return.
\<close>

datatype 'img io_event = Makedirs string bool | Imwrite string 'img

text \<open>
  The state of a run: the two hook logs, the running sample counter, the calls made so far and
  the random source. (\<^verbatim>\<open>all_preds\<close> and \<^verbatim>\<open>all_labels\<close> are never written in
  \<^verbatim>\<open>run_gradcam\<close> and are left out.)
\<close>

record 'img gradcam_state =
  gradients :: "act4 list"
  activations :: "act4 list"
  sample_idx :: nat
  io_trace :: "'img io_event list"
  noise_rng :: rng

text \<open>Python's \<^verbatim>\<open>str\<close> of a non-negative integer: its decimal digits.\<close>

function py_str :: "nat \<Rightarrow> string" where
  "py_str n =
     (if n < 10 then [''0123456789'' ! n]
      else py_str (n div 10) @ [''0123456789'' ! (n mod 10)])"
  by pat_completeness auto
termination
  by (relation "measure id") auto

text \<open>\<^verbatim>\<open>f"gradcam_sample_{sample_idx}_class_{name}.png"\<close>.\<close>

definition gradcam_filename :: "nat \<Rightarrow> string \<Rightarrow> string" where
  "gradcam_filename idx name = ''gradcam_sample_'' @ py_str idx @ ''_class_'' @ name @ ''.png''"

text \<open>\<^verbatim>\<open>os.path.join(a, b)\<close> of POSIX paths.\<close>

definition path_join :: "string \<Rightarrow> string \<Rightarrow> string" where
  "path_join a b =
     (if b \<noteq> [] \<and> hd b = CHR ''/'' then b
      else if a = [] \<or> last a = CHR ''/'' then a @ b
      else a @ ''/'' @ b)"

text \<open>
  \<^verbatim>\<open>target_layer = list(model.modules())[-5]\<close> (line 114). Both hooks are registered on the
  module this yields.
\<close>

definition target_layer :: "'m model \<Rightarrow> py_error + 'm" where
  "target_layer m = py_getitem (modules m) (- 5)"

text \<open>
  The body of the loop over the samples of a batch (lines 133-160), for sample \<open>i\<close>. \<open>t\<close> is the
  hooked module, \<open>x\<close> the batch handed to the model, \<open>outputs\<close> and \<open>preds\<close> its
  logits and predictions. \<^verbatim>\<open>class_score.backward(retain_graph=True)\<close> makes the backward hook
  append the gradient at the hooked module; \<open>render\<close> stands for the resizing to 224 by 224 and
  the colour map, which turn the heatmap into the image written.
\<close>

definition gradcam_sample ::
  "'m model \<Rightarrow> 'm \<Rightarrow> string list option \<Rightarrow> string \<Rightarrow> (fmap \<Rightarrow> 'img) \<Rightarrow> tensor
     \<Rightarrow> real list list \<Rightarrow> nat list \<Rightarrow> nat \<Rightarrow> 'img gradcam_state
     \<Rightarrow> py_error + 'img gradcam_state" where
  "gradcam_sample m t classes gradcam_output_dir render x outputs preds i st =
     (case py_getitem preds (int i) of Inl e \<Rightarrow> Inl e | Inr p \<Rightarrow>
      case py_getitem outputs (int i) of Inl e \<Rightarrow> Inl e | Inr row \<Rightarrow>
      case py_getitem row (int p) of Inl e \<Rightarrow> Inl e | Inr class_score \<Rightarrow>
      case hooked_grad_output m t x (activations st) i p of Inl e \<Rightarrow> Inl e | Inr grad \<Rightarrow>
      let gradients' = gradients st @ [grad]
      in case gradcam_heatmap gradients' (activations st) i of
           Inl e \<Rightarrow> Inl e
         | Inr (heatmap, activations') \<Rightarrow>
             (case classes of
                None \<Rightarrow> Inl TypeError
              | Some names \<Rightarrow>
                  (case py_getitem names (int p) of
                     Inl e \<Rightarrow> Inl e
                   | Inr name \<Rightarrow>
                       Inr (st\<lparr>gradients := gradients',
                               activations := activations',
                               io_trace := io_trace st @
                                 [Imwrite (path_join gradcam_output_dir
                                            (gradcam_filename (sample_idx st) name))
                                    (render heatmap)],
                               sample_idx := sample_idx st + 1\<rparr>))))"

text \<open>\<^verbatim>\<open>for i in range(len(inputs)):\<close> over the indices still to visit.\<close>

fun gradcam_samples ::
  "'m model \<Rightarrow> 'm \<Rightarrow> string list option \<Rightarrow> string \<Rightarrow> (fmap \<Rightarrow> 'img) \<Rightarrow> tensor
     \<Rightarrow> real list list \<Rightarrow> nat list \<Rightarrow> nat list \<Rightarrow> 'img gradcam_state
     \<Rightarrow> py_error + 'img gradcam_state" where
  "gradcam_samples m t classes dir render x outputs preds [] st = Inr st"
| "gradcam_samples m t classes dir render x outputs preds (i # is) st =
     (case gradcam_sample m t classes dir render x outputs preds i st of
        Inl e \<Rightarrow> Inl e
      | Inr st' \<Rightarrow> gradcam_samples m t classes dir render x outputs preds is st')"

text \<open>
  The body of the loop over the batches (lines 123-160). \<^verbatim>\<open>model(inputs)\<close> makes the forward
  hook append the output of the hooked module.
\<close>

definition gradcam_batch ::
  "'m model \<Rightarrow> 'm \<Rightarrow> string list option \<Rightarrow> string \<Rightarrow> (fmap \<Rightarrow> 'img) \<Rightarrow> real
     \<Rightarrow> tensor \<times> nat list \<Rightarrow> 'img gradcam_state \<Rightarrow> py_error + 'img gradcam_state" where
  "gradcam_batch m t classes dir render noise_multiplier batch st =
     (case gradcam_model_input noise_multiplier (noise_rng st) (fst batch) of
        (x, g') \<Rightarrow>
          (let st1 = st\<lparr>noise_rng := g', activations := activations st @ [hooked_output m t x]\<rparr>;
               outputs = forward m x
           in case row_predictions outputs of
                Inl e \<Rightarrow> Inl e
              | Inr preds \<Rightarrow>
                  (case tensor_len x of
                     Inl e \<Rightarrow> Inl e
                   | Inr n \<Rightarrow>
                       gradcam_samples m t classes dir render x outputs preds [0..<n] st1)))"

fun gradcam_batches ::
  "'m model \<Rightarrow> 'm \<Rightarrow> string list option \<Rightarrow> string \<Rightarrow> (fmap \<Rightarrow> 'img) \<Rightarrow> real
     \<Rightarrow> (tensor \<times> nat list) list \<Rightarrow> 'img gradcam_state \<Rightarrow> py_error + 'img gradcam_state" where
  "gradcam_batches m t classes dir render noise_multiplier [] st = Inr st"
| "gradcam_batches m t classes dir render noise_multiplier (batch # rest) st =
     (case gradcam_batch m t classes dir render noise_multiplier batch st of
        Inl e \<Rightarrow> Inl e
      | Inr st' \<Rightarrow> gradcam_batches m t classes dir render noise_multiplier rest st')"

text \<open>
  \<^verbatim>\<open>run_gradcam(model, device, num_channels, test_loader, classes, gradcam_output_dir,
  noise_multiplier)\<close>. \<^verbatim>\<open>test_loader\<close> and \<^verbatim>\<open>classes\<close> default to \<^verbatim>\<open>None\<close>; \<^verbatim>\<open>device\<close> and
  \<^verbatim>\<open>num_channels\<close> do not influence the result. The first statement is
  \<^verbatim>\<open>os.makedirs(gradcam_output_dir, exist_ok=True)\<close> (line 98): when it raises, the run ends
  there, before the target layer is selected. The result is the final state, or the exception
  that stopped the run.
\<close>

definition run_gradcam ::
  "'m model \<Rightarrow> (tensor \<times> nat list) list option \<Rightarrow> string list option \<Rightarrow> string \<Rightarrow> real
     \<Rightarrow> (string \<Rightarrow> bool \<Rightarrow> py_error option) \<Rightarrow> (fmap \<Rightarrow> 'img) \<Rightarrow> rng
     \<Rightarrow> py_error + 'img gradcam_state" where
  "run_gradcam m test_loader classes gradcam_output_dir noise_multiplier os_makedirs render g =
     (case os_makedirs gradcam_output_dir True of
        Some e \<Rightarrow> Inl e
      | None \<Rightarrow>
          (let st0 = \<lparr>gradients = [], activations = [], sample_idx = 0,
                      io_trace = [Makedirs gradcam_output_dir True], noise_rng = g\<rparr>
           in case target_layer m of
                Inl e \<Rightarrow> Inl e
              | Inr layer \<Rightarrow>
                  (case test_loader of
                     None \<Rightarrow> Inl TypeError
                   | Some batches \<Rightarrow>
                       gradcam_batches m layer classes gradcam_output_dir render noise_multiplier
                         batches st0)))"

text \<open>
  For the statement about the files written: the predictions of all samples processed, in
  order, as the loop over the batches computes them, and the number of samples.
\<close>

definition batch_size :: "tensor \<times> nat list \<Rightarrow> nat" where
  "batch_size batch = (case shape (fst batch) of [] \<Rightarrow> 0 | n # _ \<Rightarrow> n)"

fun all_predictions :: "'m model \<Rightarrow> real \<Rightarrow> rng \<Rightarrow> (tensor \<times> nat list) list \<Rightarrow> nat list" where
  "all_predictions m noise_multiplier g [] = []"
| "all_predictions m noise_multiplier g (batch # rest) =
     (case gradcam_model_input noise_multiplier g (fst batch) of
        (x, g') \<Rightarrow>
          take (batch_size batch) (map argmax_index (forward m x))
            @ all_predictions m noise_multiplier g' rest)"

definition event_path :: "'img io_event \<Rightarrow> string" where
  "event_path ev = (case ev of Makedirs p _ \<Rightarrow> p | Imwrite p _ \<Rightarrow> p)"

definition is_imwrite :: "'img io_event \<Rightarrow> bool" where
  "is_imwrite ev = (case ev of Makedirs _ _ \<Rightarrow> False | Imwrite _ _ \<Rightarrow> True)"

section \<open>Properties of the noise injection\<close>

lemma clamp_bounds: "lo \<le> hi \<Longrightarrow> lo \<le> clamp x lo hi \<and> clamp x lo hi \<le> hi"
  by (simp add: clamp_def min_def max_def)

lemma clamp_outside: "x < lo \<or> hi < x \<Longrightarrow> lo \<le> hi \<Longrightarrow> clamp x lo hi \<noteq> x"
  by (auto simp: clamp_def min_def max_def)

lemma map2_add_zero: "map2 (+) xs (map (\<lambda>k. 0) [0..<length xs]) = (xs :: real list)"
  by (rule nth_equalityI) simp_all

lemma add_gaussian_noise_data:
  "data (fst (add_gaussian_noise g t mean std multiplier)) =
     map (\<lambda>i. clamp (data t ! i + (g i * std * multiplier + mean)) 0 1) [0..<length (data t)]"
  by (rule nth_equalityI) (simp_all add: add_gaussian_noise_def randn_like_def tensor_clamp_def)

lemma add_gaussian_noise_shape: "shape (fst (add_gaussian_noise g t mean std multiplier)) = shape t"
  by (simp add: add_gaussian_noise_def randn_like_def tensor_clamp_def)

lemma add_gaussian_noise_zero:
  "fst (add_gaussian_noise g t 0 std 0) = tensor_clamp t 0 1"
proof (rule tensor.equality)
  show "shape (fst (add_gaussian_noise g t 0 std 0)) = shape (tensor_clamp t 0 1)"
    by (simp add: add_gaussian_noise_shape tensor_clamp_def)
  show "data (fst (add_gaussian_noise g t 0 std 0)) = data (tensor_clamp t 0 1)"
    by (rule nth_equalityI) (simp_all add: add_gaussian_noise_data tensor_clamp_def)
qed simp

lemma tensor_clamp_changes:
  assumes "x \<in> set (data t)" and "x < 0 \<or> 1 < x"
  shows "tensor_clamp t 0 1 \<noteq> t"
proof
  assume eq: "tensor_clamp t 0 1 = t"
  have "data (tensor_clamp t 0 1) = map (\<lambda>y. clamp y 0 1) (data t)"
    by (simp add: tensor_clamp_def)
  with eq have m: "map (\<lambda>y. clamp y 0 1) (data t) = map (\<lambda>y. y) (data t)"
    by simp
  from assms(1) m have "clamp x 0 1 = x"
    unfolding map_eq_conv by blast
  moreover have "clamp x 0 1 \<noteq> x"
    using assms(2) by (intro clamp_outside) simp_all
  ultimately show False by simp
qed



text \<open>
  \<^bold>\<open>C3.\<close> For a multiplier \<open>> 0\<close>, \<^verbatim>\<open>add_gaussian_noise\<close> returns a tensor of the
  input's shape whose entry \<open>i\<close> is the input's entry plus the \<open>i\<close>-th standard-normal draw
  scaled by \<open>std * multiplier\<close> plus \<open>mean\<close>, clamped to \<open>[0, 1]\<close>; so every entry of the
  result lies in \<open>[0, 1]\<close>, whatever the input holds.
\<close>

theorem add_gaussian_noise_clamped:
  assumes "0 < multiplier"
  shows "shape (fst (add_gaussian_noise g t mean std multiplier)) = shape t
    \<and> data (fst (add_gaussian_noise g t mean std multiplier)) =
        map (\<lambda>i. clamp (data t ! i + (g i * (std * multiplier) + mean)) 0 1)
          [0..<length (data t)]
    \<and> (\<forall>x \<in> set (data (fst (add_gaussian_noise g t mean std multiplier))). 0 \<le> x \<and> x \<le> 1)"
proof -
  have d: "data (fst (add_gaussian_noise g t mean std multiplier)) =
      map (\<lambda>i. clamp (data t ! i + (g i * (std * multiplier) + mean)) 0 1) [0..<length (data t)]"
    by (simp add: add_gaussian_noise_data mult.assoc)
  have "\<forall>x \<in> set (data (fst (add_gaussian_noise g t mean std multiplier))). 0 \<le> x \<and> x \<le> 1"
    unfolding d using clamp_bounds [of 0 1] by auto
  with d add_gaussian_noise_shape show ?thesis by blast
qed

theorem add_gaussian_noise_clamped_witness:
  "(0::real) < 2
   \<and> shape (fst (add_gaussian_noise real \<lparr>shape = [2], data = [- 1, 3]\<rparr> 0 (1 / 10) 2)) = [2]
   \<and> data (fst (add_gaussian_noise real \<lparr>shape = [2], data = [- 1, 3]\<rparr> 0 (1 / 10) 2)) = [0, 1]"
  using add_gaussian_noise_clamped [of 2 real "\<lparr>shape = [2], data = [- 1, 3]\<rparr>" 0 "1 / 10"]
  by (simp add: clamp_def upt_rec)

text \<open>
  \<^bold>\<open>C9.\<close> Called directly with multiplier \<open>0\<close> and mean \<open>0\<close>, \<^verbatim>\<open>add_gaussian_noise\<close>
  returns the input clamped to \<open>[0, 1]\<close>: a tensor holding an entry outside \<open>[0, 1]\<close> is
  changed, and the loader produces such entries (a pixel value below \<open>1/2\<close> is normalized to a
  negative entry). The noise step of the callers at multiplier \<open>0\<close> returns the tensor unchanged
  because it does not call the function, so the two results differ on such a tensor.
\<close>

theorem add_gaussian_noise_at_zero_clamps:
  "fst (add_gaussian_noise g t 0 std 0) = tensor_clamp t 0 1
   \<and> ((\<exists>x \<in> set (data t). x < 0 \<or> 1 < x) \<longrightarrow>
        fst (add_gaussian_noise g t 0 std 0) \<noteq> t
        \<and> fst (add_gaussian_noise g t 0 (1 / 10) 0) \<noteq> fst (inference_model_input 0 g t)
        \<and> fst (add_gaussian_noise g t 0 (1 / 10) 0) \<noteq> fst (gradcam_model_input 0 g t))
   \<and> (0 \<le> p \<and> p < 1 / 2 \<longrightarrow>
        - 1 \<le> normalize_entry p \<and> normalize_entry p < 0
        \<and> clamp (normalize_entry p) 0 1 \<noteq> normalize_entry p)"
proof -
  have a: "fst (add_gaussian_noise g t 0 s 0) = tensor_clamp t 0 1" for s
    by (rule add_gaussian_noise_zero)
  have b: "fst (inference_model_input 0 g t) = t" "fst (gradcam_model_input 0 g t) = t"
    by (simp_all add: inference_model_input_def gradcam_model_input_def)
  have c: "(\<exists>x \<in> set (data t). x < 0 \<or> 1 < x) \<Longrightarrow> tensor_clamp t 0 1 \<noteq> t"
    using tensor_clamp_changes by blast
  have d: "0 \<le> p \<and> p < 1 / 2 \<Longrightarrow>
      - 1 \<le> normalize_entry p \<and> normalize_entry p < 0
      \<and> clamp (normalize_entry p) 0 1 \<noteq> normalize_entry p"
    by (simp add: normalize_entry_def clamp_def min_def max_def)
  from a b c d show ?thesis by simp
qed

theorem add_gaussian_noise_at_zero_clamps_witness:
  "fst (add_gaussian_noise real \<lparr>shape = [2], data = [- 1, 3]\<rparr> 0 (1 / 10) 0)
     = tensor_clamp \<lparr>shape = [2], data = [- 1, 3]\<rparr> 0 1
   \<and> fst (add_gaussian_noise real \<lparr>shape = [2], data = [- 1, 3]\<rparr> 0 (1 / 10) 0)
       \<noteq> \<lparr>shape = [2], data = [- 1, 3]\<rparr>
   \<and> fst (add_gaussian_noise real \<lparr>shape = [2], data = [- 1, 3]\<rparr> 0 (1 / 10) 0)
       \<noteq> fst (inference_model_input 0 real \<lparr>shape = [2], data = [- 1, 3]\<rparr>)
   \<and> normalize_entry (1 / 4) < 0
   \<and> clamp (normalize_entry (1 / 4)) 0 1 \<noteq> normalize_entry (1 / 4)"
proof -
  have h: "\<exists>x \<in> set (data \<lparr>shape = [2], data = [- 1, 3]\<rparr>). x < 0 \<or> 1 < x"
    by simp
  have n: "(0::real) \<le> 1 / 4 \<and> (1::real) / 4 < 1 / 2"
    by simp
  from h n add_gaussian_noise_at_zero_clamps
    [of real "\<lparr>shape = [2], data = [- 1, 3]\<rparr>" "1 / 10" "1 / 4"]
  show ?thesis by blast
qed

section \<open>Properties of the Grad-CAM heatmap\<close>

lemma collect_results_length:
  "collect_results rs = Inr vs \<Longrightarrow> length vs = length rs"
  by (induction rs arbitrary: vs) (auto split: sum.splits)

lemma pooled_gradient_length:
  "pooled_gradient g = Inr ws \<Longrightarrow> length ws = length g"
  by (auto simp: pooled_gradient_def dest: collect_results_length)

lemma py_getitem_last: "xs \<noteq> [] \<Longrightarrow> py_getitem xs (- 1) = Inr (last xs)"
  by (cases xs rule: rev_cases) (simp_all add: py_getitem_def py_index_def)

lemma py_getitem_nat: "i < length xs \<Longrightarrow> py_getitem xs (int i) = Inr (xs ! i)"
  by (simp add: py_getitem_def py_index_def)

lemma take_view_last:
  "acts \<noteq> [] \<Longrightarrow> i < length (last acts) \<Longrightarrow> take_view acts i = Inr (length acts - 1, i)"
  by (cases acts rule: rev_cases) (simp_all add: take_view_def py_index_def)

lemma scale_channels_append:
  "scale_channels v ws (js @ ks) acts =
     (case scale_channels v ws js acts of
        Inl e \<Rightarrow> Inl e
      | Inr acts' \<Rightarrow> scale_channels v ws ks acts')"
  by (induction js arbitrary: acts) (auto split: sum.splits)

lemma scale_channels_prefix:
  assumes "n < length acts" and "i < length (acts ! n)" and "m \<le> length (acts ! n ! i)"
  shows "scale_channels (n, i) ws [0..<m] acts =
     Inr (acts[n := (acts ! n)[i :=
        map (\<lambda>j. if j < m then map (map (\<lambda>x. x * ws ! j)) (acts ! n ! i ! j) else acts ! n ! i ! j)
          [0..<length (acts ! n ! i)]]])"
  using assms(3)
proof (induction m)
  case 0
  have "map (\<lambda>j. acts ! n ! i ! j) [0..<length (acts ! n ! i)] = acts ! n ! i"
    by (rule map_nth)
  then show ?case by simp
next
  case (Suc m)
  let ?a = "acts ! n ! i"
  let ?a' = "map (\<lambda>j. if j < m then map (map (\<lambda>x. x * ws ! j)) (?a ! j) else ?a ! j)
      [0..<length ?a]"
  let ?acts' = "acts[n := (acts ! n)[i := ?a']]"
  from Suc have ih: "scale_channels (n, i) ws [0..<m] acts = Inr ?acts'" and m: "m < length ?a"
    by simp_all
  have rd: "view_read ?acts' (n, i) = ?a'"
    using assms(1,2) by (simp add: view_read_def)
  have upd: "?a'[m := map (map (\<lambda>x. x * ws ! m)) (?a' ! m)] =
      map (\<lambda>j. if j < Suc m then map (map (\<lambda>x. x * ws ! j)) (?a ! j) else ?a ! j) [0..<length ?a]"
    using m by (intro nth_equalityI) (auto simp: nth_list_update less_Suc_eq)
  have step: "view_scale_channel ?acts' (n, i) m (ws ! m) =
      Inr (acts[n := (acts ! n)[i :=
        map (\<lambda>j. if j < Suc m then map (map (\<lambda>x. x * ws ! j)) (?a ! j) else ?a ! j)
          [0..<length ?a]]])"
    unfolding view_scale_channel_def rd Let_def
    using m assms(1,2) upd by simp
  show ?case
    by (simp only: upt_Suc_append [OF le0] scale_channels_append ih sum.case
        scale_channels.simps step)
qed

lemma scaled_activation_nth:
  "length ws = length a \<Longrightarrow>
     map (\<lambda>j. if j < length ws then map (map (\<lambda>x. x * ws ! j)) (a ! j) else a ! j) [0..<length a]
       = scaled_activation ws a"
  by (intro nth_equalityI) (simp_all add: scaled_activation_def)

lemma scale_channels_all:
  assumes "acts \<noteq> []" and "i < length (last acts)" and "length ws = length (last acts ! i)"
  shows "scale_channels (length acts - 1, i) ws [0..<length ws] acts =
     Inr (acts[length acts - 1 := (last acts)[i := scaled_activation ws (last acts ! i)]])"
proof -
  let ?n = "length acts - 1"
  have l: "acts ! ?n = last acts"
    using assms(1) by (simp add: last_conv_nth)
  have n: "?n < length acts"
    using assms(1) by simp
  have i: "i < length (acts ! ?n)"
    using assms(2) l by simp
  have m: "length ws \<le> length (acts ! ?n ! i)"
    using assms(3) l by simp
  have e: "length ws = length (acts ! ?n ! i)"
    using assms(3) l by simp
  have "scale_channels (?n, i) ws [0..<length ws] acts =
      Inr (acts[?n := (acts ! ?n)[i :=
        map (\<lambda>j. if j < length ws then map (map (\<lambda>x. x * ws ! j)) (acts ! ?n ! i ! j)
                  else acts ! ?n ! i ! j) [0..<length (acts ! ?n ! i)]]])"
    by (rule scale_channels_prefix [OF n i m])
  then have "scale_channels (?n, i) ws [0..<length ws] acts =
      Inr (acts[?n := (acts ! ?n)[i := scaled_activation ws (acts ! ?n ! i)]])"
    by (simp only: scaled_activation_nth [OF e])
  then show ?thesis
    unfolding l .
qed

lemma view_read_after_scale:
  assumes "acts \<noteq> []" and "i < length (last acts)"
  shows "view_read (acts[length acts - 1 := (last acts)[i := a']]) (length acts - 1, i) = a'"
  using assms by (simp add: view_read_def last_conv_nth)

lemma gradcam_heatmap_unfold:
  assumes "grads \<noteq> []" and "acts \<noteq> []"
    and "i < length (last grads)" and "i < length (last acts)"
    and "length (last grads ! i) = length (last acts ! i)"
  shows "gradcam_heatmap grads acts i =
     (case pooled_gradient (last grads ! i) of Inl e \<Rightarrow> Inl e | Inr ws \<Rightarrow>
      case channel_mean (scaled_activation ws (last acts ! i)) of
        Inl e \<Rightarrow> Inl e | Inr m \<Rightarrow>
      case normalize_heatmap (np_maximum0 m) of Inl e \<Rightarrow> Inl e | Inr h \<Rightarrow>
        Inr (h, acts[length acts - 1 :=
                 (last acts)[i := scaled_activation ws (last acts ! i)]]))"
proof (cases "pooled_gradient (last grads ! i)")
  case (Inl e)
  then show ?thesis
    using assms(1,3)
    by (simp add: gradcam_heatmap_def py_getitem_last py_getitem_nat)
next
  case (Inr ws)
  have len: "length ws = length (last acts ! i)"
    using pooled_gradient_length [OF Inr] assms(5) by simp
  have loop: "scale_channels (length acts - 1, i) ws [0..<length ws] acts =
      Inr (acts[length acts - 1 :=
             (last acts)[i := scaled_activation ws (last acts ! i)]])"
    by (rule scale_channels_all [OF assms(2,4) len])
  show ?thesis
    using assms(1,3)
    by (simp add: gradcam_heatmap_def py_getitem_last py_getitem_nat Inr
        take_view_last [OF assms(2,4), simplified] loop [simplified]
        view_read_after_scale [OF assms(2,4), simplified] split: sum.splits)
qed

text \<open>
  \<^bold>\<open>C1.\<close> As stated (the scaled channels are summed), the claim fails: the code takes the
  \<^emph>\<open>mean\<close> of the scaled channels, \<^verbatim>\<open>torch.mean(activation, dim=0)\<close>, and with the fixed
  \<open>1e-8\<close> in the divisor the two heatmaps differ. On two channels of one entry \<open>1e-8\<close> each, with
  gradient \<open>1\<close>, the code yields \<open>1/2\<close> where the sum would yield \<open>2/3\<close>.
\<close>

theorem gradcam_heatmap_not_by_sum:
  "(case gradcam_heatmap [[[[[1]], [[1]]]]] [[[[[1 / 10 ^ 8]], [[1 / 10 ^ 8]]]]] 0 of
      Inl e \<Rightarrow> Inl e | Inr (h, acts') \<Rightarrow> Inr h) = Inr [[1 / 2]]
   \<and> heatmap_by_sum [[[1]], [[1]]] [[[1 / 10 ^ 8]], [[1 / 10 ^ 8]]] = Inr [[2 / 3]]
   \<and> (case gradcam_heatmap [[[[[1]], [[1]]]]] [[[[[1 / 10 ^ 8]], [[1 / 10 ^ 8]]]]] 0 of
      Inl e \<Rightarrow> Inl e | Inr (h, acts') \<Rightarrow> Inr h)
     \<noteq> heatmap_by_sum [[[1]], [[1]]] [[[1 / 10 ^ 8]], [[1 / 10 ^ 8]]]"
proof -
  have a: "gradcam_heatmap [[[[[1]], [[1]]]]] [[[[[1 / 10 ^ 8]], [[1 / 10 ^ 8]]]]] 0
      = Inr ([[1 / 2]], [[[[[1 / 10 ^ 8]], [[1 / 10 ^ 8]]]]])"
    by (simp add: gradcam_heatmap_def py_getitem_def py_index_def pooled_gradient_def
        channel_spatial_mean_def take_view_def view_scale_channel_def view_read_def
        channel_mean_def np_maximum0_def normalize_heatmap_def np_max_def)
  have b: "heatmap_by_sum [[[1]], [[1]]] [[[1 / 10 ^ 8]], [[1 / 10 ^ 8]]] = Inr [[2 / 3]]"
    by (simp add: heatmap_by_sum_def pooled_gradient_def channel_spatial_mean_def
        scaled_activation_def channel_sum_def np_maximum0_def normalize_heatmap_def np_max_def)
  show ?thesis
    unfolding a b by simp
qed

text \<open>
  \<^bold>\<open>C1, amended.\<close> For every sample \<open>i\<close> whose gradient and activation are in the last log
  entries with the same number of channels, the heatmap of the code is the one obtained by
  these steps: each channel of the captured activation is scaled by the spatial mean of the
  corresponding gradient channel, the scaled channels are \<^emph>\<open>averaged\<close> into one map, negative
  values are clamped to zero, and the map is divided by its maximum plus \<open>1e-8\<close>. The two
  computations also fail together.
\<close>

theorem gradcam_heatmap_by_mean:
  assumes "grads \<noteq> []" and "acts \<noteq> []"
    and "i < length (last grads)" and "i < length (last acts)"
    and "length (last grads ! i) = length (last acts ! i)"
  shows "(case gradcam_heatmap grads acts i of
            Inl e \<Rightarrow> Inl e | Inr (h, acts') \<Rightarrow> Inr h)
         = heatmap_by_mean (last grads ! i) (last acts ! i)"
  unfolding gradcam_heatmap_unfold [OF assms] heatmap_by_mean_def
  by (simp split: sum.splits)

theorem gradcam_heatmap_by_mean_witness:
  "(case gradcam_heatmap [[[[[2, 4]], [[1, 1]]]]] [[[[[1, - 2]], [[1, 2]]]]] 0 of
      Inl e \<Rightarrow> Inl e | Inr (h, acts') \<Rightarrow> Inr h)
   = Inr [[200000000 / 200000001, 0]]"
proof -
  have "heatmap_by_mean [[[2, 4]], [[1, 1]]] [[[1, - 2]], [[1, 2]]]
      = Inr [[200000000 / 200000001, 0]]"
    by (simp add: heatmap_by_mean_def pooled_gradient_def channel_spatial_mean_def
        scaled_activation_def channel_mean_def np_maximum0_def normalize_heatmap_def np_max_def)
  with gradcam_heatmap_by_mean [of "[[[[[2, 4]], [[1, 1]]]]]" "[[[[[1, - 2]], [[1, 2]]]]]" 0]
  show ?thesis by simp
qed

section \<open>The range of the heatmap in floating-point arithmetic\<close>

lemma exact_in_float32_range_rounding: "float_rounding exact_in_float32_range"
proof -
  have z: "exact_in_float32_range 0 = Num 0" and o: "exact_in_float32_range 1 = Num 1"
    by (simp_all add: exact_in_float32_range_def)
  have "exact_in_float32_range (1 / 10 ^ 8) = Num (1 / 10 ^ 8)"
    by (simp add: exact_in_float32_range_def)
  then have e: "\<exists>e. 0 < e \<and> exact_in_float32_range (1 / 10 ^ 8) = Num e"
    by (intro exI [of _ "1 / 10 ^ 8"]) simp
  have n: "\<forall>x. exact_in_float32_range x \<noteq> NaN"
    by (simp add: exact_in_float32_range_def)
  have m: "\<forall>x y. x \<le> y \<longrightarrow> f_le (exact_in_float32_range x) (exact_in_float32_range y)"
    by (auto simp: exact_in_float32_range_def)
  have i: "\<forall>x v. exact_in_float32_range x = Num v \<longrightarrow> exact_in_float32_range v = Num v"
    by (auto simp: exact_in_float32_range_def split: if_splits)
  from z o e n m i show ?thesis
    unfolding float_rounding_def by blast
qed

lemma float_rounding_between:
  assumes "float_rounding rnd" and "0 \<le> q" and "q \<le> 1"
  shows "in_unit_interval (rnd q)"
proof -
  from assms(1) have z: "rnd 0 = Num 0" and o: "rnd 1 = Num 1"
    and mono: "\<And>x y. x \<le> y \<Longrightarrow> f_le (rnd x) (rnd y)"
    by (simp_all add: float_rounding_def)
  from mono [OF assms(2)] mono [OF assms(3)] have "f_le (Num 0) (rnd q)" "f_le (rnd q) (Num 1)"
    by (simp_all add: z o)
  then show ?thesis
    by (cases "rnd q") (simp_all add: in_unit_interval_def)
qed

lemma f_div_stored:
  assumes "float_rounding rnd" and "f_div rnd a b = Num v"
  shows "rnd v = Num v"
proof -
  from assms(1) have z: "rnd 0 = Num 0"
    and idem: "\<And>x w. rnd x = Num w \<Longrightarrow> rnd w = Num w"
    by (auto simp: float_rounding_def)
  from assms(2) show ?thesis
    by (cases a; cases b) (auto simp: z dest: idem split: if_splits)
qed

lemma f_maximum0_cases:
  "f_maximum0 x \<noteq> NInf"
  "f_maximum0 x = Num v \<Longrightarrow> 0 \<le> v"
  by (cases x; simp add: f_maximum0_def; fail)+

lemma f_maximum0_stored:
  assumes "rnd 0 = Num 0" and "\<forall>w. x = Num w \<longrightarrow> rnd w = Num w" and "f_maximum0 x = Num v"
  shows "rnd v = Num v"
  using assms by (cases x) (auto simp: f_maximum0_def max_def split: if_splits)

lemma f_max2_Num:
  assumes "f_max2 a b = Num m" and "a \<noteq> NInf" and "b \<noteq> NInf"
  shows "\<exists>x y. a = Num x \<and> b = Num y \<and> m = max x y"
  using assms by (cases a; cases b) simp_all

lemma f_max2_not_NInf: "a \<noteq> NInf \<Longrightarrow> b \<noteq> NInf \<Longrightarrow> f_max2 a b \<noteq> NInf"
  by (cases a; cases b) simp_all

lemma fold_f_max2_Num:
  assumes "fold f_max2 xs x = Num m" and "\<forall>y \<in> set (x # xs). y \<noteq> NInf"
  shows "(\<forall>y \<in> set (x # xs). \<exists>v. y = Num v \<and> v \<le> m) \<and> Num m \<in> set (x # xs)"
  using assms
proof (induction xs arbitrary: x)
  case Nil
  then show ?case by simp
next
  case (Cons y ys)
  let ?z = "f_max2 y x"
  from Cons.prems have f: "fold f_max2 ys ?z = Num m"
    and nx: "x \<noteq> NInf" and ny: "y \<noteq> NInf" and nys: "\<forall>w \<in> set ys. w \<noteq> NInf"
    by simp_all
  from f_max2_not_NInf [OF ny nx] nys have "\<forall>w \<in> set (?z # ys). w \<noteq> NInf"
    by simp
  from Cons.IH [OF f this] have
    all: "\<forall>w \<in> set (?z # ys). \<exists>v. w = Num v \<and> v \<le> m" and mem: "Num m \<in> set (?z # ys)"
    by blast+
  from all obtain vz where z: "?z = Num vz" and zm: "vz \<le> m"
    by auto
  from f_max2_Num [OF z ny nx] obtain vy vx where
    y: "y = Num vy" and x: "x = Num vx" and vz: "vz = max vy vx"
    by blast
  from zm vz have "vx \<le> m" "vy \<le> m"
    by simp_all
  with all x y have a: "\<forall>w \<in> set (x # y # ys). \<exists>v. w = Num v \<and> v \<le> m"
    by simp
  from mem z vz x y have b: "Num m \<in> set (x # y # ys)"
    by (auto simp: max_def split: if_splits)
  from a b show ?case by simp
qed

lemma fold_f_max2_all_Num:
  assumes "\<forall>y \<in> set (x # xs). \<exists>v. y = Num v"
  shows "\<exists>m. fold f_max2 xs x = Num m"
  using assms
proof (induction xs arbitrary: x)
  case Nil
  then show ?case by simp
next
  case (Cons y ys)
  from Cons.prems obtain vx vy where "x = Num vx" "y = Num vy"
    by auto
  then have "f_max2 y x = Num (max vy vx)"
    by simp
  with Cons.prems have "\<forall>w \<in> set (f_max2 y x # ys). \<exists>v. w = Num v"
    by simp
  from Cons.IH [OF this] show ?case by simp
qed

lemma normalized_entry:
  assumes fr: "float_rounding rnd"
    and eps: "0 \<le> eps" "rnd eps = Num e" "0 < e"
    and M: "fold f_max2 xs x0 = M"
    and cl: "\<forall>y \<in> set (x0 # xs). y \<noteq> NInf \<and> (\<forall>v. y = Num v \<longrightarrow> 0 \<le> v \<and> rnd v = Num v)"
    and c: "c \<in> set (x0 # xs)"
  shows "f_div rnd c (f_add rnd M (Num eps)) = NaN
       \<or> in_unit_interval (f_div rnd c (f_add rnd M (Num eps)))"
    and "(\<exists>m. M = Num m) \<Longrightarrow> in_unit_interval (f_div rnd c (f_add rnd M (Num eps)))"
    and "M = Num 0 \<Longrightarrow> f_div rnd c (f_add rnd M (Num eps)) = Num 0"
proof -
  let ?d = "f_add rnd M (Num eps)"
  from fr have z: "rnd 0 = Num 0"
    and nn: "\<And>x. rnd x \<noteq> NaN"
    and mono: "\<And>x y. x \<le> y \<Longrightarrow> f_le (rnd x) (rnd y)"
    by (simp_all add: float_rounding_def)
  have num: "in_unit_interval (f_div rnd c ?d)
      \<and> (m = 0 \<longrightarrow> f_div rnd c ?d = Num 0)" if Mm: "M = Num m" for m
  proof -
    from cl have nninf: "\<forall>y \<in> set (x0 # xs). y \<noteq> NInf"
      by blast
    from fold_f_max2_Num [OF M [unfolded Mm] nninf] have
      all: "\<forall>y \<in> set (x0 # xs). \<exists>v. y = Num v \<and> v \<le> m" and mem: "Num m \<in> set (x0 # xs)"
      by blast+
    from all c obtain v where cv: "c = Num v" and vm: "v \<le> m"
      by blast
    from cl c cv have v0: "0 \<le> v"
      by blast
    from cl mem have m0: "0 \<le> m" and ms: "rnd m = Num m"
      by blast+
    have d: "?d = rnd (m + eps)"
      by (simp add: Mm)
    have "f_le (rnd m) (rnd (m + eps))"
      using eps(1) by (intro mono) simp
    then have le1: "f_le (Num m) ?d"
      by (simp add: d ms)
    have "f_le (rnd eps) (rnd (m + eps))"
      using m0 by (intro mono) simp
    then have le2: "f_le (Num e) ?d"
      by (simp add: d eps(2))
    show ?thesis
    proof (cases ?d)
      case (Num d')
      with le1 le2 have md: "m \<le> d'" and ed: "e \<le> d'"
        by simp_all
      with eps(3) have pos: "0 < d'"
        by simp
      have q: "0 \<le> v / d'" "v / d' \<le> 1"
        using v0 vm md pos by (simp_all add: divide_simps)
      have val: "f_div rnd c ?d = rnd (v / d')"
        using pos by (simp add: cv Num)
      have "v = 0" if "m = 0"
        using that v0 vm by simp
      then have "m = 0 \<longrightarrow> f_div rnd c ?d = Num 0"
        by (auto simp: val z)
      with float_rounding_between [OF fr q] val show ?thesis
        by simp
    next
      case PInf
      then show ?thesis
        by (simp add: cv in_unit_interval_def)
    next
      case NInf
      with le1 show ?thesis by simp
    next
      case NaN
      with nn [of "m + eps"] d show ?thesis by simp
    qed
  qed
  show "f_div rnd c ?d = NaN \<or> in_unit_interval (f_div rnd c ?d)"
  proof (cases M)
    case (Num m)
    with num show ?thesis by blast
  next
    case PInf
    then show ?thesis
      by (cases c) (simp_all add: in_unit_interval_def)
  next
    case NInf
    then show ?thesis
      by (cases c) (simp_all add: in_unit_interval_def)
  next
    case NaN
    then show ?thesis
      by (cases c) simp_all
  qed
  show "in_unit_interval (f_div rnd c ?d)" if "\<exists>m. M = Num m"
    using that num by blast
  show "f_div rnd c ?d = Num 0" if "M = Num 0"
    using that num by blast
qed

lemma float_normalize_entries:
  assumes "float_normalize rnd wm = Inr h"
  shows "\<exists>x0 xs. map f_maximum0 (concat wm) = x0 # xs
     \<and> concat h = map (\<lambda>x. f_div rnd x (f_add rnd (fold f_max2 xs x0) (Num (1 / 10 ^ 8))))
                    (x0 # xs)"
proof -
  let ?hc = "map (map f_maximum0) wm"
  from assms obtain M where M: "float_np_max ?hc = Inr M"
    and h: "h = map (map (\<lambda>x. f_div rnd x (f_add rnd M (Num (1 / 10 ^ 8))))) ?hc"
    by (auto simp: float_normalize_def Let_def split: sum.splits)
  have cc: "concat ?hc = map f_maximum0 (concat wm)"
    by (simp add: map_concat)
  from M obtain x0 xs where c: "concat ?hc = x0 # xs" and Mv: "M = fold f_max2 xs x0"
    by (auto simp: float_np_max_def split: list.splits)
  have "concat h = map (\<lambda>x. f_div rnd x (f_add rnd M (Num (1 / 10 ^ 8)))) (concat ?hc)"
    unfolding h by (simp only: map_concat [symmetric] map_map comp_def)
  with c cc Mv show ?thesis
    by simp
qed

lemma float_normalize_range:
  assumes fr: "float_rounding rnd"
    and st: "\<forall>x \<in> set (concat wm). \<forall>v. x = Num v \<longrightarrow> rnd v = Num v"
    and nz: "float_normalize rnd wm = Inr h"
  shows "\<forall>y \<in> set (concat h). y = NaN \<or> in_unit_interval y"
    and "(\<forall>x \<in> set (concat wm). x \<noteq> NaN \<and> x \<noteq> PInf) \<Longrightarrow>
           \<forall>y \<in> set (concat h). in_unit_interval y"
    and "(\<forall>x \<in> set (concat wm). f_maximum0 x = Num 0) \<Longrightarrow> \<forall>y \<in> set (concat h). y = Num 0"
proof -
  from fr have z: "rnd 0 = Num 0"
    by (simp add: float_rounding_def)
  from float_normalize_entries [OF nz] obtain x0 xs where
    c: "map f_maximum0 (concat wm) = x0 # xs"
    and h: "concat h = map (\<lambda>x. f_div rnd x (f_add rnd (fold f_max2 xs x0) (Num (1 / 10 ^ 8))))
        (x0 # xs)"
    by (elim exE conjE)
  have cl: "\<forall>y \<in> set (x0 # xs). y \<noteq> NInf \<and> (\<forall>v. y = Num v \<longrightarrow> 0 \<le> v \<and> rnd v = Num v)"
  proof
    fix y assume "y \<in> set (x0 # xs)"
    with c obtain x where x: "x \<in> set (concat wm)" and y: "y = f_maximum0 x"
      by (metis (no_types, lifting) imageE list.set_map)
    from st x have sx: "\<forall>w. x = Num w \<longrightarrow> rnd w = Num w"
      by blast
    note stored = f_maximum0_stored [where rnd = rnd, OF z sx]
    from f_maximum0_cases [of x] stored
    show "y \<noteq> NInf \<and> (\<forall>v. y = Num v \<longrightarrow> 0 \<le> v \<and> rnd v = Num v)"
      unfolding y by auto
  qed
  from fr obtain e where e: "rnd (1 / 10 ^ 8) = Num e" "0 < e"
    by (auto simp: float_rounding_def)
  have e0: "(0::real) \<le> 1 / 10 ^ 8"
    by simp
  note ne = normalized_entry [OF fr e0 e refl cl]
  show "\<forall>y \<in> set (concat h). y = NaN \<or> in_unit_interval y"
    unfolding h using ne(1) by auto
  show "\<forall>y \<in> set (concat h). in_unit_interval y"
    if a: "\<forall>x \<in> set (concat wm). x \<noteq> NaN \<and> x \<noteq> PInf"
  proof -
    have "\<forall>y \<in> set (x0 # xs). \<exists>v. y = Num v"
    proof
      fix y assume "y \<in> set (x0 # xs)"
      with c obtain x where x: "x \<in> set (concat wm)" and y: "y = f_maximum0 x"
        by (metis (no_types, lifting) imageE list.set_map)
      from a x have "x \<noteq> NaN" "x \<noteq> PInf"
        by blast+
      then show "\<exists>v. y = Num v"
        unfolding y by (cases x) (simp_all add: f_maximum0_def)
    qed
    from fold_f_max2_all_Num [OF this] have "\<exists>m. fold f_max2 xs x0 = Num m" .
    with ne(2) show ?thesis
      unfolding h by auto
  qed
  show "\<forall>y \<in> set (concat h). y = Num 0"
    if a: "\<forall>x \<in> set (concat wm). f_maximum0 x = Num 0"
  proof -
    have all0: "\<forall>y \<in> set (x0 # xs). y = Num 0"
    proof
      fix y assume "y \<in> set (x0 # xs)"
      with c obtain x where x: "x \<in> set (concat wm)" and y: "y = f_maximum0 x"
        by (metis (no_types, lifting) imageE list.set_map)
      with a show "y = Num 0" by blast
    qed
    have "fold f_max2 ys (Num 0) = Num 0" if "\<forall>y \<in> set ys. y = Num 0" for ys
      using that by (induction ys) simp_all
    with all0 have "fold f_max2 xs x0 = Num 0"
      by simp
    with ne(3) show ?thesis
      unfolding h by auto
  qed
qed

lemma float_weighted_map_stored:
  assumes "float_rounding rnd" and "float_weighted_map rnd g a = Inr wm"
  shows "\<forall>x \<in> set (concat wm). \<forall>v. x = Num v \<longrightarrow> rnd v = Num v"
proof -
  from assms(2) obtain a' where "float_channel_mean rnd a' = Inr wm"
    by (auto simp: float_weighted_map_def Let_def split: sum.splits)
  then obtain s where
    wm: "wm = map (map (\<lambda>q. f_div rnd q (Num (real (length a'))))) s"
    by (auto simp: float_channel_mean_def split: if_splits)
  show ?thesis
  proof (intro ballI allI impI)
    fix x v assume x: "x \<in> set (concat wm)" and v: "x = Num v"
    from x obtain q where "x = f_div rnd q (Num (real (length a')))"
      unfolding wm by auto
    with v f_div_stored [OF assms(1)] show "rnd v = Num v"
      by metis
  qed
qed

lemma float_scale_channels_zero:
  assumes "rnd 0 = Num 0"
    and "\<forall>ch \<in> set a. \<forall>row \<in> set ch. \<forall>x \<in> set row. x = Num 0"
    and "\<forall>j \<in> set js. \<exists>w. ws ! j = Num w"
    and "float_scale_channels rnd ws js a = Inr a'"
  shows "\<forall>ch \<in> set a'. \<forall>row \<in> set ch. \<forall>x \<in> set row. x = Num 0"
  using assms(2-4)
proof (induction js arbitrary: a)
  case Nil
  then show ?case by simp
next
  case (Cons j js)
  from Cons.prems(2) obtain w where w: "ws ! j = Num w"
    by auto
  let ?c = "map (map (\<lambda>x. f_mul rnd x (ws ! j))) (a ! j)"
  from Cons.prems(3) have j: "j < length a"
    and rest: "float_scale_channels rnd ws js (a[j := ?c]) = Inr a'"
    by (simp_all split: if_splits)
  from nth_mem [OF j] Cons.prems(1) have aj: "\<forall>row \<in> set (a ! j). \<forall>x \<in> set row. x = Num 0"
    by blast
  have c0: "\<forall>row \<in> set ?c. \<forall>x \<in> set row. x = Num 0"
  proof (intro ballI)
    fix row x assume r: "row \<in> set ?c" and x: "x \<in> set row"
    from r obtain row0 where r0: "row0 \<in> set (a ! j)"
      and row: "row = map (\<lambda>x. f_mul rnd x (ws ! j)) row0"
      by auto
    from x row obtain x0 where x0: "x0 \<in> set row0" and xv: "x = f_mul rnd x0 (ws ! j)"
      by auto
    from aj r0 x0 have "x0 = Num 0"
      by blast
    then show "x = Num 0"
      by (simp add: xv w assms(1))
  qed
  have "\<forall>ch \<in> set (a[j := ?c]). \<forall>row \<in> set ch. \<forall>x \<in> set row. x = Num 0"
  proof
    fix ch assume "ch \<in> set (a[j := ?c])"
    then have "ch = ?c \<or> ch \<in> set a"
      by (auto dest: set_update_subset_insert [THEN subsetD])
    with c0 Cons.prems(1) show "\<forall>row \<in> set ch. \<forall>x \<in> set row. x = Num 0"
      by blast
  qed
  from Cons.IH [OF this _ rest] Cons.prems(2) show ?case
    by simp
qed

lemma float_sum_zero_maps:
  assumes "rnd 0 = Num 0"
    and "\<forall>row \<in> set s. \<forall>x \<in> set row. x = Num 0"
    and "\<forall>ch \<in> set bs. \<forall>row \<in> set ch. \<forall>x \<in> set row. x = Num 0"
  shows "\<forall>row \<in> set (foldl (map2 (map2 (f_add rnd))) s bs). \<forall>x \<in> set row. x = Num 0"
  using assms(2,3)
proof (induction bs arbitrary: s)
  case Nil
  then show ?case by simp
next
  case (Cons b bs)
  have "\<forall>row \<in> set (map2 (map2 (f_add rnd)) s b). \<forall>x \<in> set row. x = Num 0"
  proof (intro ballI)
    fix row x
    assume row: "row \<in> set (map2 (map2 (f_add rnd)) s b)" and x: "x \<in> set row"
    from row obtain r1 r2 where z: "(r1, r2) \<in> set (zip s b)" and r: "row = map2 (f_add rnd) r1 r2"
      by auto
    from x r obtain e1 e2 where ez: "(e1, e2) \<in> set (zip r1 r2)" and e: "x = f_add rnd e1 e2"
      by auto
    from z have "r1 \<in> set s" "r2 \<in> set b"
      by (auto dest: set_zip_leftD set_zip_rightD)
    moreover from ez have "e1 \<in> set r1" "e2 \<in> set r2"
      by (auto dest: set_zip_leftD set_zip_rightD)
    ultimately have "e1 = Num 0" "e2 = Num 0"
      using Cons.prems by auto
    with e assms(1) show "x = Num 0" by simp
  qed
  with Cons.IH [of "map2 (map2 (f_add rnd)) s b"] Cons.prems(2) show ?case
    by simp
qed

lemma float_weighted_map_zero:
  assumes "rnd 0 = Num 0"
    and "\<forall>ch \<in> set a. \<forall>row \<in> set ch. \<forall>x \<in> set row. x = Num 0"
    and "\<forall>w \<in> set (float_pooled_gradient rnd g). \<exists>v. w = Num v"
    and "float_weighted_map rnd g a = Inr wm"
  shows "\<forall>x \<in> set (concat wm). x = Num 0"
proof -
  let ?ws = "float_pooled_gradient rnd g"
  from assms(4) obtain a' where
    sc: "float_scale_channels rnd ?ws [0..<length ?ws] a = Inr a'"
    and cm: "float_channel_mean rnd a' = Inr wm"
    by (auto simp: float_weighted_map_def Let_def split: sum.splits)
  from assms(3) have "\<forall>j \<in> set [0..<length ?ws]. \<exists>w. ?ws ! j = Num w"
    by simp
  from float_scale_channels_zero [OF assms(1,2) this sc]
  have z: "\<forall>ch \<in> set a'. \<forall>row \<in> set ch. \<forall>x \<in> set row. x = Num 0" .
  from cm have ne: "a' \<noteq> []"
    and wm: "wm = map (map (\<lambda>s. f_div rnd s (Num (real (length a')))))
        (foldl (map2 (map2 (f_add rnd))) (hd a') (tl a'))"
    by (auto simp: float_channel_mean_def split: if_splits)
  from hd_in_set [OF ne] z have "\<forall>row \<in> set (hd a'). \<forall>x \<in> set row. x = Num 0"
    by blast
  moreover from z have "\<forall>ch \<in> set (tl a'). \<forall>row \<in> set ch. \<forall>x \<in> set row. x = Num 0"
    by (meson list.set_sel(2) ne)
  ultimately have s0: "\<forall>row \<in> set (foldl (map2 (map2 (f_add rnd))) (hd a') (tl a')).
      \<forall>x \<in> set row. x = Num 0"
    by (rule float_sum_zero_maps [where rnd = rnd, OF assms(1)])
  from ne have "real (length a') \<noteq> 0"
    by simp
  then have d0: "f_div rnd (Num 0) (Num (real (length a'))) = Num 0"
    by (simp add: assms(1))
  show ?thesis
  proof
    fix x assume "x \<in> set (concat wm)"
    then obtain row q where row: "row \<in> set (foldl (map2 (map2 (f_add rnd))) (hd a') (tl a'))"
      and q: "q \<in> set row" and x: "x = f_div rnd q (Num (real (length a')))"
      unfolding wm by auto
    from s0 row q have "q = Num 0"
      by blast
    with x d0 show "x = Num 0"
      by simp
  qed
qed

text \<open>
  \<^bold>\<open>C4.\<close> As stated, for every activation/gradient pair, the claim fails: the tensors hold
  32-bit floating-point numbers, and a product of two finite values can overflow. With the one
  gradient entry \<open>2^70\<close> and the one activation entry \<open>2^70\<close>, both exactly representable, the
  weight is \<open>2^70\<close> and the product in line 144 is \<open>2^140\<close>, beyond the largest number of the
  format: it is stored as infinity, the mean and the maximum are infinity, the divisor
  \<open>inf + 1e-8\<close> is infinity, and the heatmap entry \<open>inf / inf\<close> is NaN, which is not in \<open>[0, 1]\<close>.
\<close>

theorem float_heatmap_overflow_nan:
  "float_heatmap exact_in_float32_range [[[Num (2 ^ 70)]]] [[[Num (2 ^ 70)]]] = Inr [[NaN]]
   \<and> float_pooled_gradient exact_in_float32_range [[[Num (2 ^ 70)]]] = [Num (2 ^ 70)]
   \<and> f_mul exact_in_float32_range (Num (2 ^ 70)) (Num (2 ^ 70)) = PInf
   \<and> \<not> in_unit_interval NaN"
proof -
  have p: "float_pooled_gradient exact_in_float32_range [[[Num (2 ^ 70)]]] = [Num (2 ^ 70)]"
    by (simp add: float_pooled_gradient_def float_spatial_mean_def exact_in_float32_range_def)
  have m: "f_mul exact_in_float32_range (Num (2 ^ 70)) (Num (2 ^ 70)) = PInf"
    by (simp add: exact_in_float32_range_def)
  have w: "float_weighted_map exact_in_float32_range [[[Num (2 ^ 70)]]] [[[Num (2 ^ 70)]]]
      = Inr [[PInf]]"
    unfolding float_weighted_map_def p
    by (simp add: exact_in_float32_range_def float_channel_mean_def)
  have "float_normalize exact_in_float32_range [[PInf]] = Inr [[NaN]]"
    by (simp add: float_normalize_def float_np_max_def f_maximum0_def)
  with w have h: "float_heatmap exact_in_float32_range [[[Num (2 ^ 70)]]] [[[Num (2 ^ 70)]]]
      = Inr [[NaN]]"
    by (simp add: float_heatmap_def)
  from h p m show ?thesis
    by (simp add: in_unit_interval_def)
qed

text \<open>
  \<^bold>\<open>C4, amended.\<close> In the floating-point arithmetic of the program, for every rounding and
  every activation/gradient pair, every entry of the normalized heatmap is a number in
  \<open>[0, 1]\<close> or NaN. All entries are numbers in \<open>[0, 1]\<close> when the weighted map of line 146
  holds neither NaN nor \<open>+inf\<close>, that is, when no product or sum has overflowed to \<open>+inf\<close> or
  become undefined. When the clamped weighted map is all zeros, the normalized map is all zeros
  (the divisor is \<open>0 + 1e-8\<close>, not zero); this is so for an all-zero activation with finite
  gradient weights.
\<close>

theorem float_heatmap_unit_interval_or_nan:
  assumes "float_rounding rnd" and "float_heatmap rnd g a = Inr h"
  shows "(\<forall>row \<in> set h. \<forall>y \<in> set row. y = NaN \<or> in_unit_interval y)
     \<and> (\<exists>wm. float_weighted_map rnd g a = Inr wm \<and> float_normalize rnd wm = Inr h
          \<and> ((\<forall>row \<in> set wm. \<forall>x \<in> set row. x \<noteq> NaN \<and> x \<noteq> PInf) \<longrightarrow>
               (\<forall>row \<in> set h. \<forall>y \<in> set row. in_unit_interval y))
          \<and> ((\<forall>row \<in> set wm. \<forall>x \<in> set row. f_maximum0 x = Num 0) \<longrightarrow>
               (\<forall>row \<in> set h. \<forall>y \<in> set row. y = Num 0)))
     \<and> ((\<forall>ch \<in> set a. \<forall>row \<in> set ch. \<forall>x \<in> set row. x = Num 0)
          \<and> (\<forall>w \<in> set (float_pooled_gradient rnd g). \<exists>v. w = Num v) \<longrightarrow>
          (\<forall>row \<in> set h. \<forall>y \<in> set row. y = Num 0))"
proof -
  from assms(2) obtain wm where
    wm: "float_weighted_map rnd g a = Inr wm" and nz: "float_normalize rnd wm = Inr h"
    by (auto simp: float_heatmap_def split: sum.splits)
  from assms(1) have z: "rnd 0 = Num 0"
    by (simp add: float_rounding_def)
  note st = float_weighted_map_stored [OF assms(1) wm]
  note r = float_normalize_range [OF assms(1) st nz]
  have one: "\<forall>row \<in> set h. \<forall>y \<in> set row. y = NaN \<or> in_unit_interval y"
    using r(1) by auto
  have two: "\<forall>row \<in> set h. \<forall>y \<in> set row. in_unit_interval y"
    if "\<forall>row \<in> set wm. \<forall>x \<in> set row. x \<noteq> NaN \<and> x \<noteq> PInf"
  proof -
    from that have "\<forall>x \<in> set (concat wm). x \<noteq> NaN \<and> x \<noteq> PInf"
      by auto
    from r(2) [OF this] show ?thesis by auto
  qed
  have three: "\<forall>row \<in> set h. \<forall>y \<in> set row. y = Num 0"
    if "\<forall>row \<in> set wm. \<forall>x \<in> set row. f_maximum0 x = Num 0"
  proof -
    from that have "\<forall>x \<in> set (concat wm). f_maximum0 x = Num 0"
      by auto
    from r(3) [OF this] show ?thesis by auto
  qed
  have four: "\<forall>row \<in> set h. \<forall>y \<in> set row. y = Num 0"
    if a: "(\<forall>ch \<in> set a. \<forall>row \<in> set ch. \<forall>x \<in> set row. x = Num 0)
        \<and> (\<forall>w \<in> set (float_pooled_gradient rnd g). \<exists>v. w = Num v)"
  proof -
    from a have w0: "\<forall>x \<in> set (concat wm). x = Num 0"
      by (intro float_weighted_map_zero [where rnd = rnd, OF z _ _ wm]) blast+
    have "\<forall>x \<in> set (concat wm). f_maximum0 x = Num 0"
    proof
      fix x assume "x \<in> set (concat wm)"
      with w0 have "x = Num 0" by blast
      then show "f_maximum0 x = Num 0" by (simp add: f_maximum0_def)
    qed
    from r(3) [OF this] show ?thesis by auto
  qed
  from one two three four wm nz show ?thesis
    by blast
qed

theorem float_heatmap_unit_interval_or_nan_witness:
  "float_rounding exact_in_float32_range
   \<and> float_heatmap exact_in_float32_range
         [[[Num 2, Num 4]], [[Num 1, Num 1]]] [[[Num 1, Num (- 2)]], [[Num 1, Num 2]]]
       = Inr [[Num (200000000 / 200000001), Num 0]]
   \<and> float_weighted_map exact_in_float32_range
         [[[Num 2, Num 4]], [[Num 1, Num 1]]] [[[Num 1, Num (- 2)]], [[Num 1, Num 2]]]
       = Inr [[Num 2, Num (- 2)]]
   \<and> in_unit_interval (Num (200000000 / 200000001)) \<and> in_unit_interval (Num 0)
   \<and> float_heatmap exact_in_float32_range
         [[[Num 2, Num 4]], [[Num 1, Num 1]]] [[[Num 0, Num 0]], [[Num 0, Num 0]]]
       = Inr [[Num 0, Num 0]]"
proof -
  let ?r = exact_in_float32_range
  let ?g = "[[[Num 2, Num 4]], [[Num 1, Num 1]]]"
  let ?a = "[[[Num 1, Num (- 2)]], [[Num 1, Num 2]]]"
  let ?z = "[[[Num 0, Num 0]], [[Num 0, Num 0]]]"
  note defs = float_heatmap_def float_weighted_map_def float_pooled_gradient_def
    float_spatial_mean_def float_channel_mean_def float_normalize_def float_np_max_def
    f_maximum0_def exact_in_float32_range_def Let_def
  have fr: "float_rounding ?r"
    by (rule exact_in_float32_range_rounding)
  have p: "float_pooled_gradient ?r ?g = [Num 3, Num 1]"
    by (simp add: float_pooled_gradient_def float_spatial_mean_def exact_in_float32_range_def)
  have wm: "float_weighted_map ?r ?g ?a = Inr [[Num 2, Num (- 2)]]"
    unfolding float_weighted_map_def p
    by (simp add: float_channel_mean_def exact_in_float32_range_def upt_conv_Cons)
  have nz: "float_normalize ?r [[Num 2, Num (- 2)]] = Inr [[Num (200000000 / 200000001), Num 0]]"
    by (simp add: float_normalize_def float_np_max_def f_maximum0_def
        exact_in_float32_range_def)
  have h: "float_heatmap ?r ?g ?a = Inr [[Num (200000000 / 200000001), Num 0]]"
    by (simp add: float_heatmap_def wm nz)
  have wz: "float_weighted_map ?r ?g ?z = Inr [[Num 0, Num 0]]"
    unfolding float_weighted_map_def p
    by (simp add: float_channel_mean_def exact_in_float32_range_def upt_conv_Cons)
  have "float_normalize ?r [[Num 0, Num 0]] = Inr [[Num 0, Num 0]]"
    by (simp add: float_normalize_def float_np_max_def f_maximum0_def
        exact_in_float32_range_def)
  with wz have hz: "float_heatmap ?r ?g ?z = Inr [[Num 0, Num 0]]"
    by (simp add: float_heatmap_def)
  note t = float_heatmap_unit_interval_or_nan [OF fr h]
  from t obtain wm' where
    w': "float_weighted_map ?r ?g ?a = Inr wm'"
    and fin: "(\<forall>row \<in> set wm'. \<forall>x \<in> set row. x \<noteq> NaN \<and> x \<noteq> PInf) \<longrightarrow>
        (\<forall>row \<in> set [[Num (200000000 / 200000001), Num 0]]. \<forall>y \<in> set row. in_unit_interval y)"
    by blast
  from w' wm have "wm' = [[Num 2, Num (- 2)]]"
    by simp
  then have "\<forall>row \<in> set wm'. \<forall>x \<in> set row. x \<noteq> NaN \<and> x \<noteq> PInf"
    by simp
  with fin have "\<forall>row \<in> set [[Num (200000000 / 200000001), Num 0]].
      \<forall>y \<in> set row. in_unit_interval y"
    by (rule mp)
  then have u: "in_unit_interval (Num (200000000 / 200000001))" "in_unit_interval (Num 0)"
    by simp_all
  note tz = float_heatmap_unit_interval_or_nan [OF fr hz, THEN conjunct2, THEN conjunct2]
  have "(\<forall>ch \<in> set ?z. \<forall>row \<in> set ch. \<forall>x \<in> set row. x = Num 0)
      \<and> (\<forall>w \<in> set (float_pooled_gradient ?r ?g). \<exists>v. w = Num v)"
    unfolding p by simp
  with tz have "\<forall>row \<in> set [[Num 0, Num 0]]. \<forall>y \<in> set row. y = Num 0"
    by (rule mp)
  from fr h wm u hz show ?thesis
    by (intro conjI)
qed

section \<open>Properties of the confusion matrix\<close>

lemma unique_labels_set: "set (unique_labels y_true y_pred) = set y_true \<union> set y_pred"
  by (simp add: unique_labels_def)

lemma unique_labels_distinct: "distinct (unique_labels y_true y_pred)"
  by (simp add: unique_labels_def)

lemma unique_labels_range:
  "set y_true \<union> set y_pred = {0..<n} \<Longrightarrow> unique_labels y_true y_pred = [0..<n]"
proof -
  assume a: "set y_true \<union> set y_pred = {0..<n}"
  have "unique_labels y_true y_pred = sorted_list_of_set (set (y_true @ y_pred))"
    unfolding unique_labels_def by (simp only: sorted_list_of_set_sort_remdups)
  also have "\<dots> = sorted_list_of_set {0..<n}"
    using a by simp
  also have "\<dots> = [0..<n]"
    by simp
  finally show ?thesis .
qed

lemma sum_list_indicator:
  "distinct ls \<Longrightarrow>
     sum_list (map (\<lambda>p. if y = p then (1::nat) else 0) ls) = (if y \<in> set ls then 1 else 0)"
  by (induction ls) auto

lemma count_pairs_Cons:
  "count_pairs (z # zs) a p = (if z = (a, p) then 1 else 0) + count_pairs zs a p"
  by (simp add: count_pairs_def)

lemma row_of_counts:
  assumes "distinct ls" and "\<forall>s \<in> set zs. snd s \<in> set ls"
  shows "sum_list (map (\<lambda>p. count_pairs zs a p) ls) = length (filter (\<lambda>s. fst s = a) zs)"
  using assms(2)
proof (induction zs)
  case Nil
  then show ?case by (simp add: count_pairs_def)
next
  case (Cons z zs)
  obtain x y where z: "z = (x, y)" by (cases z)
  from Cons.prems z have y: "y \<in> set ls" by simp
  have "sum_list (map (\<lambda>p. if z = (a, p) then (1::nat) else 0) ls)
      = (if x = a then sum_list (map (\<lambda>p. if y = p then 1 else 0) ls) else 0)"
    unfolding z by simp
  also have "\<dots> = (if x = a then 1 else 0)"
    using sum_list_indicator [OF assms(1), of y] y by simp
  finally have one: "sum_list (map (\<lambda>p. if z = (a, p) then (1::nat) else 0) ls)
      = (if fst z = a then 1 else 0)"
    unfolding z by simp
  from Cons have ih: "sum_list (map (\<lambda>p. count_pairs zs a p) ls)
      = length (filter (\<lambda>s. fst s = a) zs)"
    by simp
  show ?case
    by (simp add: count_pairs_Cons sum_list_addf one ih)
qed

lemma column_of_counts:
  assumes "distinct ls" and "\<forall>s \<in> set zs. fst s \<in> set ls"
  shows "sum_list (map (\<lambda>a. count_pairs zs a p) ls) = length (filter (\<lambda>s. snd s = p) zs)"
  using assms(2)
proof (induction zs)
  case Nil
  then show ?case by (simp add: count_pairs_def)
next
  case (Cons z zs)
  obtain x y where z: "z = (x, y)" by (cases z)
  from Cons.prems z have x: "x \<in> set ls" by simp
  have "sum_list (map (\<lambda>a. if z = (a, p) then (1::nat) else 0) ls)
      = (if y = p then sum_list (map (\<lambda>a. if x = a then 1 else 0) ls) else 0)"
    unfolding z by simp
  also have "\<dots> = (if y = p then 1 else 0)"
    using sum_list_indicator [OF assms(1), of x] x by simp
  finally have one: "sum_list (map (\<lambda>a. if z = (a, p) then (1::nat) else 0) ls)
      = (if snd z = p then 1 else 0)"
    unfolding z by simp
  from Cons have ih: "sum_list (map (\<lambda>a. count_pairs zs a p) ls)
      = length (filter (\<lambda>s. snd s = p) zs)"
    by simp
  show ?case
    by (simp add: count_pairs_Cons sum_list_addf one ih)
qed

lemma diagonal_of_counts:
  assumes "distinct ls" and "\<forall>s \<in> set zs. fst s \<in> set ls"
  shows "sum_list (map (\<lambda>l. count_pairs zs l l) ls) = length (filter (\<lambda>(a, p). a = p) zs)"
  using assms(2)
proof (induction zs)
  case Nil
  then show ?case by (simp add: count_pairs_def)
next
  case (Cons z zs)
  obtain x y where z: "z = (x, y)" by (cases z)
  from Cons.prems z have x: "x \<in> set ls" by simp
  have "sum_list (map (\<lambda>l. if z = (l, l) then (1::nat) else 0) ls)
      = (if x = y then sum_list (map (\<lambda>l. if x = l then 1 else 0) ls) else 0)"
    unfolding z by (auto intro: arg_cong [where f = sum_list])
  also have "\<dots> = (if x = y then 1 else 0)"
    using sum_list_indicator [OF assms(1), of x] x by auto
  finally have "sum_list (map (\<lambda>l. if z = (l, l) then (1::nat) else 0) ls)
      = (if x = y then 1 else 0)" .
  then have one: "sum_list (map (\<lambda>l. if z = (l, l) then (1::nat) else 0) ls)
      = (if (case z of (a, p) \<Rightarrow> a = p) then 1 else 0)"
    unfolding z by simp
  from Cons have ih: "sum_list (map (\<lambda>l. count_pairs zs l l) ls)
      = length (filter (\<lambda>(a, p). a = p) zs)"
    by simp
  show ?case
    by (simp add: count_pairs_Cons sum_list_addf one ih)
qed

lemma filter_fst_zip:
  "length xs = length ys \<Longrightarrow> length (filter (\<lambda>s. fst s = a) (zip xs ys)) = count_list xs a"
  by (induction xs ys rule: list_induct2) auto

lemma filter_snd_zip:
  "length xs = length ys \<Longrightarrow> length (filter (\<lambda>s. snd s = p) (zip xs ys)) = count_list ys p"
  by (induction xs ys rule: list_induct2) auto


lemma confusion_matrix_value:
  "length y_true = length y_pred \<Longrightarrow>
     confusion_matrix y_true y_pred =
       Inr (map (\<lambda>a. map (\<lambda>p. count_pairs (zip y_true y_pred) a p)
              (unique_labels y_true y_pred)) (unique_labels y_true y_pred))"
  by (simp add: confusion_matrix_def Let_def)

lemma zip_members_labelled:
  "\<forall>s \<in> set (zip y_true y_pred).
     fst s \<in> set (unique_labels y_true y_pred) \<and> snd s \<in> set (unique_labels y_true y_pred)"
  by (auto simp: unique_labels_set dest: set_zip_leftD set_zip_rightD)

lemma confusion_matrix_sums_by_label:
  assumes "length y_true = length y_pred"
  shows "\<exists>cm. confusion_matrix y_true y_pred = Inr cm
    \<and> length cm = length (unique_labels y_true y_pred)
    \<and> (\<forall>i < length cm. length (cm ! i) = length cm)
    \<and> (\<forall>i < length cm. row_sum cm i = count_list y_true (unique_labels y_true y_pred ! i))
    \<and> (\<forall>j < length cm. column_sum cm j = count_list y_pred (unique_labels y_true y_pred ! j))
    \<and> diagonal_sum cm = correct_predictions y_true y_pred"
proof -
  let ?ls = "unique_labels y_true y_pred"
  let ?zs = "zip y_true y_pred"
  let ?cm = "map (\<lambda>a. map (\<lambda>p. count_pairs ?zs a p) ?ls) ?ls"
  have d: "distinct ?ls" by (rule unique_labels_distinct)
  have f: "\<forall>s \<in> set ?zs. fst s \<in> set ?ls" and s: "\<forall>s \<in> set ?zs. snd s \<in> set ?ls"
    using zip_members_labelled by blast+
  have v: "confusion_matrix y_true y_pred = Inr ?cm"
    by (rule confusion_matrix_value [OF assms])
  have len: "length ?cm = length ?ls" by simp
  have sq: "\<forall>i < length ?cm. length (?cm ! i) = length ?cm" by simp
  have rows: "\<forall>i < length ?cm. row_sum ?cm i = count_list y_true (?ls ! i)"
    by (simp add: row_sum_def row_of_counts [OF d s] filter_fst_zip [OF assms])
  have cols: "\<forall>j < length ?cm. column_sum ?cm j = count_list y_pred (?ls ! j)"
  proof (intro allI impI)
    fix j assume j: "j < length ?cm"
    have "map (\<lambda>row. row ! j) ?cm = map (\<lambda>a. count_pairs ?zs a (?ls ! j)) ?ls"
      using j by simp
    then show "column_sum ?cm j = count_list y_pred (?ls ! j)"
      by (simp only: column_sum_def column_of_counts [OF d f] filter_snd_zip [OF assms])
  qed
  have "map (\<lambda>i. ?cm ! i ! i) [0..<length ?cm] = map (\<lambda>l. count_pairs ?zs l l) ?ls"
    by (intro nth_equalityI) simp_all
  then have diag: "diagonal_sum ?cm = correct_predictions y_true y_pred"
    by (simp only: diagonal_sum_def correct_predictions_def diagonal_of_counts [OF d f])
  from v len sq rows cols diag show ?thesis by blast
qed

lemma unique_labels_of_classes:
  assumes "set y_true = {0..<n}" and "length (unique_labels y_true y_pred) = n"
  shows "unique_labels y_true y_pred = [0..<n]"
proof -
  let ?ls = "unique_labels y_true y_pred"
  have sub: "{0..<n} \<subseteq> set ?ls"
    using assms(1) by (auto simp: unique_labels_set)
  have "card (set ?ls) = n"
    using assms(2) unique_labels_distinct [of y_true y_pred] by (simp add: distinct_card)
  then have "card (set ?ls) \<le> card {0..<n}"
    by simp
  with sub have "{0..<n} = set ?ls"
    by (intro card_seteq) simp_all
  then have "set y_true \<union> set y_pred = {0..<n}"
    by (simp add: unique_labels_set)
  then show ?thesis
    by (rule unique_labels_range)
qed

lemma collect_predictions_labels:
  "collect_predictions m nm g batches ps ls = Inr (all_preds, all_labels) \<Longrightarrow>
     all_labels = ls @ concat (map snd batches)"
proof (induction batches arbitrary: g ps ls)
  case Nil
  then show ?case by simp
next
  case (Cons batch rest)
  obtain inputs labels where b: "batch = (inputs, labels)" by (cases batch)
  obtain x g' where xg: "inference_model_input nm g inputs = (x, g')"
    by (cases "inference_model_input nm g inputs")
  from Cons.prems b xg obtain preds where
    "collect_predictions m nm g' rest (ps @ preds) (ls @ labels) = Inr (all_preds, all_labels)"
    by (auto split: sum.splits)
  from Cons.IH [OF this] b show ?case by simp
qed

lemma run_inferece_matrix:
  assumes "run_inferece m test_loader classes scores pd metrics_path nm g fs = Inr (cm, fs')"
    and "collect_predictions m nm g test_loader [] [] = Inr (all_preds, all_labels)"
  shows "length (unique_labels all_labels all_preds) = length classes
     \<and> length all_labels = length all_preds
     \<and> confusion_matrix all_labels all_preds = Inr cm"
  using assms
  by (auto simp: run_inferece_def confusion_matrix_def Let_def split: sum.splits if_splits)

text \<open>
  \<^bold>\<open>C6.\<close> In an evaluation run the labels come from the loader of \<^verbatim>\<open>get_test_loader\<close>:
  \<^verbatim>\<open>ImageFolder\<close> labels every image with the index of its class folder and refuses a class
  folder without images, so the actual labels occurring are exactly \<open>0, ..., n-1\<close> for the \<open>n\<close>
  class names. A run that gets past \<^verbatim>\<open>classification_report\<close> (line 58) has \<open>n\<close> distinct
  labels among actual and predicted ones, so the matrix of line 59 is \<open>n\<close> by \<open>n\<close> with row \<open>i\<close>
  and column \<open>i\<close> those of class \<open>i\<close>: the sum of row \<open>i\<close> is the number of samples whose actual
  class is \<open>i\<close>, the sum of column \<open>j\<close> is the number of samples predicted as class \<open>j\<close>, and the
  sum of the diagonal is the number of correct predictions.
\<close>

theorem confusion_matrix_sums:
  assumes "run_inferece m test_loader classes scores pd metrics_path nm g fs = Inr (cm, fs')"
    and "collect_predictions m nm g test_loader [] [] = Inr (all_preds, all_labels)"
    and "set (concat (map snd test_loader)) = {0..<length classes}"
  shows "confusion_matrix all_labels all_preds = Inr cm
     \<and> all_labels = concat (map snd test_loader)
     \<and> length all_preds = length all_labels
     \<and> length cm = length classes
     \<and> (\<forall>i < length classes. length (cm ! i) = length classes)
     \<and> (\<forall>i < length classes. row_sum cm i = count_list all_labels i)
     \<and> (\<forall>j < length classes. column_sum cm j = count_list all_preds j)
     \<and> diagonal_sum cm = correct_predictions all_labels all_preds"
proof -
  let ?n = "length classes"
  from run_inferece_matrix [OF assms(1,2)] have
    u: "length (unique_labels all_labels all_preds) = ?n"
    and l: "length all_labels = length all_preds"
    and c: "confusion_matrix all_labels all_preds = Inr cm"
    by simp_all
  from collect_predictions_labels [OF assms(2)] have
    lab: "all_labels = concat (map snd test_loader)"
    by simp
  with assms(3) have "set all_labels = {0..<?n}"
    by simp
  from unique_labels_of_classes [OF this u] have ul: "unique_labels all_labels all_preds = [0..<?n]" .
  from confusion_matrix_sums_by_label [OF l] c have
    len: "length cm = length (unique_labels all_labels all_preds)"
    and sq: "\<forall>i < length cm. length (cm ! i) = length cm"
    and rows: "\<forall>i < length cm.
        row_sum cm i = count_list all_labels (unique_labels all_labels all_preds ! i)"
    and cols: "\<forall>j < length cm.
        column_sum cm j = count_list all_preds (unique_labels all_labels all_preds ! j)"
    and diag: "diagonal_sum cm = correct_predictions all_labels all_preds"
    by auto
  from len ul have n: "length cm = ?n"
    by simp
  from rows cols sq n ul have
    "\<forall>i < ?n. length (cm ! i) = ?n"
    "\<forall>i < ?n. row_sum cm i = count_list all_labels i"
    "\<forall>j < ?n. column_sum cm j = count_list all_preds j"
    by simp_all
  with c lab l n diag show ?thesis
    by simp
qed

theorem confusion_matrix_sums_witness:
  "\<exists>fs'. run_inferece
       \<lparr>modules = [] :: nat list, forward = (\<lambda>x. map (\<lambda>v. [1 - v, v]) (data x)),
         hooked_output = (\<lambda>k x. []), hooked_grad_output = (\<lambda>k x a i c. Inr [])\<rparr>
       [(\<lparr>shape = [2, 1, 1, 1], data = [0, 1]\<rparr>, [0, 1]),
        (\<lparr>shape = [1, 1, 1, 1], data = [0]\<rparr>, [1])]
       [''cat'', ''dog'']
       \<lparr>f1_score = (\<lambda>a p. 2 / 3), precision_score = (\<lambda>a p. 3 / 4),
         recall_score = (\<lambda>a p. 2 / 3)\<rparr>
       \<lparr>noise_repr = (\<lambda>x. ''0.0''), float_repr = (\<lambda>x. ''0.7''),
         infers_compression = (\<lambda>p. False)\<rparr>
       ''out/metrics_noise_cnn.csv'' 0 (\<lambda>k. 0)
       \<lparr>nodes = [[] \<mapsto> Directory, [''out''] \<mapsto> Directory], cwd = []\<rparr>
     = Inr ([[1, 0], [1, 1]], fs')
   \<and> row_sum [[1, 0], [1, 1]] 0 = count_list [0, 1, 1 :: nat] 0
   \<and> row_sum [[1, 0], [1, 1]] 1 = count_list [0, 1, 1 :: nat] 1
   \<and> column_sum [[1, 0], [1, 1]] 0 = count_list [0, 1, 0 :: nat] 0
   \<and> column_sum [[1, 0], [1, 1]] 1 = count_list [0, 1, 0 :: nat] 1
   \<and> diagonal_sum [[1, 0], [1, 1]] = correct_predictions [0, 1, 1] [0, 1, 0]"
proof -
  let ?m = "\<lparr>modules = [] :: nat list, forward = (\<lambda>x. map (\<lambda>v. [1 - v, v]) (data x)),
      hooked_output = (\<lambda>k x. []), hooked_grad_output = (\<lambda>k x a i c. Inr [])\<rparr>"
  let ?l = "[(\<lparr>shape = [2, 1, 1, 1], data = [0, 1]\<rparr>, [0, 1 :: nat]),
      (\<lparr>shape = [1, 1, 1, 1], data = [0]\<rparr>, [1])]"
  let ?s = "\<lparr>f1_score = (\<lambda>a p. 2 / 3), precision_score = (\<lambda>a p. 3 / 4),
      recall_score = (\<lambda>a p. 2 / 3)\<rparr>"
  let ?pd = "\<lparr>noise_repr = (\<lambda>x. ''0.0''), float_repr = (\<lambda>x. ''0.7''),
      infers_compression = (\<lambda>p. False)\<rparr>"
  let ?fs = "\<lparr>nodes = [[] \<mapsto> Directory, [''out''] \<mapsto> Directory], cwd = []\<rparr>"
  have cp: "collect_predictions ?m 0 (\<lambda>k. 0) ?l [] [] = Inr ([0, 1, 0], [0, 1, 1])"
    by (simp add: inference_model_input_def row_predictions_def argmax_def argmax_index_def)
  have ul: "unique_labels [0, 1, 1] [0, 1, 0] = [0, 1]"
    by (simp add: unique_labels_def)
  have cm: "confusion_matrix [0, 1, 1] [0, 1, 0] = Inr [[1, 0], [1, 1]]"
    by (simp add: confusion_matrix_def unique_labels_def count_pairs_def)
  have rs: "resolve ?fs ''out/metrics_noise_cnn.csv'' = Inr [''out'', ''metrics_noise_cnn.csv'']"
    by (simp add: resolve_def)
  have "\<exists>fs'. run_inferece ?m ?l [''cat'', ''dog''] ?s ?pd ''out/metrics_noise_cnn.csv'' 0
      (\<lambda>k. 0) ?fs = Inr ([[1, 0], [1, 1]], fs')"
    by (simp add: run_inferece_def inference_model_input_def row_predictions_def argmax_def
        argmax_index_def confusion_matrix_def unique_labels_def count_pairs_def
        write_metrics_def to_csv_append_def resolve_def path_exists_def is_filename_def Let_def)
  then obtain fs' where run: "run_inferece ?m ?l [''cat'', ''dog''] ?s ?pd
      ''out/metrics_noise_cnn.csv'' 0 (\<lambda>k. 0) ?fs = Inr ([[1, 0], [1, 1]], fs')"
    by blast
  have labels: "set (concat (map snd ?l)) = {0..<length [''cat'', ''dog'']}"
    by auto
  from confusion_matrix_sums [OF run cp labels]
  have rows: "\<forall>i < length [''cat'', ''dog'']. row_sum [[1, 0], [1, 1]] i = count_list [0, 1, 1] i"
    and cols: "\<forall>j < length [''cat'', ''dog'']. column_sum [[1, 0], [1, 1]] j = count_list [0, 1, 0] j"
    and diag: "diagonal_sum [[1, 0], [1, 1]] = correct_predictions [0, 1, 1] [0, 1, 0]"
    by blast+
  from rows have r0: "row_sum [[1, 0], [1, 1]] 0 = count_list [0, 1, 1 :: nat] 0"
    and r1: "row_sum [[1, 0], [1, 1]] 1 = count_list [0, 1, 1 :: nat] 1"
    by simp_all
  from cols have c0: "column_sum [[1, 0], [1, 1]] 0 = count_list [0, 1, 0 :: nat] 0"
    and c1: "column_sum [[1, 0], [1, 1]] 1 = count_list [0, 1, 0 :: nat] 1"
    by simp_all
  from run r0 r1 c0 c1 diag show ?thesis
    by blast
qed

section \<open>Properties of the metrics table file\<close>















section \<open>Properties of the explainer\<close>

lemma py_getitem_Inr:
  "py_getitem xs (int i) = Inr v \<Longrightarrow> i < length xs \<and> v = xs ! i"
  by (auto simp: py_getitem_def py_index_def split: if_splits)

lemma py_str_nonempty: "py_str n \<noteq> []"
  by (subst py_str.simps) simp

lemma digit_chars_distinct: "distinct ''0123456789''"
  by simp

lemma digit_char_inj:
  assumes "a < 10" and "b < 10" and "''0123456789'' ! a = ''0123456789'' ! b"
  shows "a = b"
  using assms digit_chars_distinct
  by (simp add: nth_eq_iff_index_eq)

lemma digit_char_not_underscore: "d < 10 \<Longrightarrow> ''0123456789'' ! d \<noteq> CHR ''_''"
proof -
  assume "d < 10"
  then have "''0123456789'' ! d \<in> set ''0123456789''"
    by (intro nth_mem) simp
  then show ?thesis by auto
qed

lemma py_str_digits: "CHR ''_'' \<notin> set (py_str n)"
proof (induction n rule: py_str.induct)
  case (1 n)
  show ?case
  proof (cases "n < 10")
    case True
    then show ?thesis
      using digit_char_not_underscore [of n] by (subst py_str.simps) auto
  next
    case False
    have "n mod 10 < 10" by simp
    then have "''0123456789'' ! (n mod 10) \<noteq> CHR ''_''"
      by (rule digit_char_not_underscore)
    with 1 False show ?thesis
      by (subst py_str.simps) auto
  qed
qed

lemma py_str_inj: "py_str n = py_str k \<Longrightarrow> n = k"
proof (induction n arbitrary: k rule: py_str.induct)
  case (1 n)
  show ?case
  proof (cases "n < 10")
    case True
    then have n: "py_str n = [''0123456789'' ! n]"
      by (subst py_str.simps) simp
    show ?thesis
    proof (cases "k < 10")
      case k: True
      then have "py_str k = [''0123456789'' ! k]"
        by (subst py_str.simps) simp
      with n "1.prems" True k show ?thesis
        by (auto intro: digit_char_inj)
    next
      case k: False
      then have "py_str k = py_str (k div 10) @ [''0123456789'' ! (k mod 10)]"
        by (subst py_str.simps) simp
      with n "1.prems" py_str_nonempty [of "k div 10"] show ?thesis
        by (cases "py_str (k div 10)") auto
    qed
  next
    case False
    then have n: "py_str n = py_str (n div 10) @ [''0123456789'' ! (n mod 10)]"
      by (subst py_str.simps) simp
    show ?thesis
    proof (cases "k < 10")
      case k: True
      then have "py_str k = [''0123456789'' ! k]"
        by (subst py_str.simps) simp
      with n "1.prems" py_str_nonempty [of "n div 10"] show ?thesis
        by (cases "py_str (n div 10)") auto
    next
      case k: False
      then have "py_str k = py_str (k div 10) @ [''0123456789'' ! (k mod 10)]"
        by (subst py_str.simps) simp
      with n "1.prems" have a: "py_str (n div 10) = py_str (k div 10)"
        and b: "''0123456789'' ! (n mod 10) = ''0123456789'' ! (k mod 10)"
        by simp_all
      from "1.IH" [OF False a] have d: "n div 10 = k div 10" .
      have "n mod 10 = k mod 10"
        using b by (intro digit_char_inj) simp_all
      with d show ?thesis
        by (metis div_mult_mod_eq)
    qed
  qed
qed

lemma split_at_underscore:
  assumes "CHR ''_'' \<notin> set u" and "CHR ''_'' \<notin> set v"
    and "u @ CHR ''_'' # r = v @ CHR ''_'' # r'"
  shows "u = v"
  using assms
proof (induction u arbitrary: v)
  case Nil
  then show ?case by (cases v) auto
next
  case (Cons c u)
  then show ?case by (cases v) auto
qed

lemma gradcam_filename_inj:
  assumes "gradcam_filename k a = gradcam_filename k' b"
  shows "k = k'"
proof -
  have e: "''_class_'' @ s = CHR ''_'' # (''class_'' @ s)" for s
    by simp
  from assms have "py_str k @ ''_class_'' @ a @ ''.png'' = py_str k' @ ''_class_'' @ b @ ''.png''"
    by (simp only: gradcam_filename_def same_append_eq)
  then have "py_str k @ CHR ''_'' # (''class_'' @ a @ ''.png'')
      = py_str k' @ CHR ''_'' # (''class_'' @ b @ ''.png'')"
    by (simp only: e)
  from split_at_underscore [OF py_str_digits py_str_digits this]
  show ?thesis by (rule py_str_inj)
qed

lemma gradcam_filename_head: "\<exists>r. gradcam_filename k a = CHR ''g'' # r"
  by (simp add: gradcam_filename_def)

lemma path_join_filename:
  "path_join dir (gradcam_filename k a) =
     (if dir = [] \<or> last dir = CHR ''/'' then dir else dir @ ''/'') @ gradcam_filename k a"
proof -
  obtain r where r: "gradcam_filename k a = CHR ''g'' # r"
    using gradcam_filename_head by blast
  show ?thesis
    unfolding r path_join_def by simp
qed

lemma gradcam_path_inj:
  assumes "path_join dir (gradcam_filename k a) = path_join dir (gradcam_filename k' b)"
  shows "k = k'"
proof -
  from assms have "gradcam_filename k a = gradcam_filename k' b"
    by (simp only: path_join_filename same_append_eq)
  then show ?thesis by (rule gradcam_filename_inj)
qed

lemma row_predictions_Inr:
  "row_predictions outputs = Inr preds \<Longrightarrow> preds = map argmax_index outputs"
  unfolding row_predictions_def
  by (induction outputs arbitrary: preds)
    (auto simp: argmax_def split: sum.splits if_splits)

lemma gradcam_model_input_shape:
  "shape (fst (gradcam_model_input nm g inputs)) = shape inputs"
  by (simp add: gradcam_model_input_def add_gaussian_noise_shape)

lemma tensor_len_Inr: "tensor_len x = Inr n \<Longrightarrow> \<exists>r. shape x = n # r"
  by (auto simp: tensor_len_def split: list.splits)

lemma map_upt_add:
  "map f [0..<a + b] = map f [0..<a] @ map (\<lambda>k. f (a + k)) [0..<b]"
proof -
  have "[0..<a + b] = [0..<a] @ map (\<lambda>k. a + k) [0..<b]"
    by (intro nth_equalityI) (auto simp: nth_append)
  then show ?thesis
    by (simp add: comp_def)
qed

lemma gradcam_sample_effect:
  assumes "gradcam_sample m t (Some names) dir render x outputs preds i st = Inr st'"
  shows "i < length preds \<and> preds ! i < length names
     \<and> (\<exists>ev. io_trace st' = io_trace st @ [ev] \<and> is_imwrite ev
          \<and> event_path ev = path_join dir (gradcam_filename (sample_idx st) (names ! (preds ! i))))
     \<and> sample_idx st' = Suc (sample_idx st) \<and> noise_rng st' = noise_rng st"
proof -
  from assms obtain p where p: "py_getitem preds (int i) = Inr p"
    by (auto simp: gradcam_sample_def split: sum.splits)
  from py_getitem_Inr [OF p] have i: "i < length preds" and pv: "p = preds ! i"
    by simp_all
  from assms p obtain name where n: "py_getitem names (int p) = Inr name"
    by (auto simp: gradcam_sample_def Let_def split: sum.splits prod.splits)
  from py_getitem_Inr [OF n] have pl: "p < length names" and nv: "name = names ! p"
    by simp_all
  from assms p n obtain img gs acs where
    st': "st' = st\<lparr>gradients := gs, activations := acs,
        io_trace := io_trace st @ [Imwrite (path_join dir (gradcam_filename (sample_idx st) name)) img],
        sample_idx := sample_idx st + 1\<rparr>"
    by (auto simp: gradcam_sample_def Let_def split: sum.splits prod.splits)
  show ?thesis
    using i pl unfolding st' pv [symmetric] nv [symmetric]
    by (simp add: is_imwrite_def event_path_def)
qed


lemma gradcam_samples_effect:
  assumes "gradcam_samples m t (Some names) dir render x outputs preds is st = Inr st'"
  shows "(\<forall>i \<in> set is. i < length preds \<and> preds ! i < length names)
     \<and> (\<exists>evs. io_trace st' = io_trace st @ evs \<and> list_all is_imwrite evs
          \<and> map event_path evs =
              map (\<lambda>k. path_join dir
                     (gradcam_filename (sample_idx st + k) (names ! (preds ! (is ! k)))))
                [0..<length is])
     \<and> sample_idx st' = sample_idx st + length is \<and> noise_rng st' = noise_rng st"
  using assms
proof (induction "is" arbitrary: st)
  case Nil
  then show ?case by simp
next
  case (Cons i "is")
  from Cons.prems obtain st1 where
    s1: "gradcam_sample m t (Some names) dir render x outputs preds i st = Inr st1"
    and rest: "gradcam_samples m t (Some names) dir render x outputs preds is st1 = Inr st'"
    by (auto split: sum.splits)
  from gradcam_sample_effect [OF s1] obtain ev where
    i: "i < length preds" "preds ! i < length names"
    and ev: "io_trace st1 = io_trace st @ [ev]" "is_imwrite ev"
      "event_path ev = path_join dir (gradcam_filename (sample_idx st) (names ! (preds ! i)))"
    and idx1: "sample_idx st1 = Suc (sample_idx st)" and rng1: "noise_rng st1 = noise_rng st"
    by blast
  from Cons.IH [OF rest] obtain evs where
    all: "\<forall>j \<in> set is. j < length preds \<and> preds ! j < length names"
    and evs: "io_trace st' = io_trace st1 @ evs" "list_all is_imwrite evs"
      "map event_path evs =
         map (\<lambda>k. path_join dir
                (gradcam_filename (sample_idx st1 + k) (names ! (preds ! (is ! k)))))
           [0..<length is]"
    and idx: "sample_idx st' = sample_idx st1 + length is"
    and rng: "noise_rng st' = noise_rng st1"
    by blast
  have tr: "io_trace st' = io_trace st @ (ev # evs)"
    using ev(1) evs(1) by simp
  have al: "list_all is_imwrite (ev # evs)"
    using ev(2) evs(2) by simp
  have paths: "map event_path (ev # evs) =
      map (\<lambda>k. path_join dir
             (gradcam_filename (sample_idx st + k) (names ! (preds ! ((i # is) ! k)))))
        [0..<length (i # is)]"
    using ev(3) evs(3) idx1
    by (simp add: map_upt_Suc del: upt_Suc)
  from i all tr al paths idx idx1 rng rng1 show ?case
    by auto
qed

lemma gradcam_batch_effect:
  assumes "gradcam_batch m t (Some names) dir render nm batch st = Inr st'"
    and "ps = take (batch_size batch)
            (map argmax_index (forward m (fst (gradcam_model_input nm (noise_rng st) (fst batch)))))"
  shows "length ps = batch_size batch \<and> (\<forall>k < length ps. ps ! k < length names)
     \<and> (\<exists>evs. io_trace st' = io_trace st @ evs \<and> list_all is_imwrite evs
          \<and> map event_path evs =
              map (\<lambda>k. path_join dir (gradcam_filename (sample_idx st + k) (names ! (ps ! k))))
                [0..<length ps])
     \<and> sample_idx st' = sample_idx st + length ps
     \<and> noise_rng st' = snd (gradcam_model_input nm (noise_rng st) (fst batch))"
proof -
  obtain x g' where xg: "gradcam_model_input nm (noise_rng st) (fst batch) = (x, g')"
    by (cases "gradcam_model_input nm (noise_rng st) (fst batch)")
  let ?st1 = "st\<lparr>noise_rng := g', activations := activations st @ [hooked_output m t x]\<rparr>"
  from assms(1) xg obtain preds n where
    pr: "row_predictions (forward m x) = Inr preds"
    and tl: "tensor_len x = Inr n"
    and run: "gradcam_samples m t (Some names) dir render x (forward m x) preds [0..<n] ?st1
        = Inr st'"
    by (auto simp: gradcam_batch_def Let_def split: sum.splits)
  have preds: "preds = map argmax_index (forward m x)"
    by (rule row_predictions_Inr [OF pr])
  have "shape x = shape (fst batch)"
    using gradcam_model_input_shape [of nm "noise_rng st" "fst batch"] xg by simp
  with tensor_len_Inr [OF tl] have n: "n = batch_size batch"
    by (auto simp: batch_size_def)
  from gradcam_samples_effect [OF run] obtain evs where
    all: "\<forall>i \<in> set [0..<n]. i < length preds \<and> preds ! i < length names"
    and evs: "io_trace st' = io_trace ?st1 @ evs" "list_all is_imwrite evs"
      "map event_path evs =
         map (\<lambda>k. path_join dir
                (gradcam_filename (sample_idx ?st1 + k) (names ! (preds ! ([0..<n] ! k)))))
           [0..<length [0..<n]]"
    and idx: "sample_idx st' = sample_idx ?st1 + length [0..<n]"
    and rng: "noise_rng st' = noise_rng ?st1"
    by blast
  from all have le: "n \<le> length preds"
    by (cases n) auto
  have ps: "ps = take n preds"
    using assms(2) xg preds n by simp
  have len: "length ps = n"
    using le ps by simp
  have nth: "ps ! k = preds ! k" if "k < n" for k
    using that ps by simp
  have bound: "\<forall>k < length ps. ps ! k < length names"
    using all len nth by auto
  have paths: "map event_path evs =
      map (\<lambda>k. path_join dir (gradcam_filename (sample_idx st + k) (names ! (ps ! k))))
        [0..<length ps]"
    unfolding evs(3) len using nth by (intro nth_equalityI) simp_all
  from len n bound evs(1,2) paths idx rng xg show ?thesis
    by auto
qed


lemma gradcam_batches_effect:
  assumes "gradcam_batches m t (Some names) dir render nm batches st = Inr st'"
    and "ps = all_predictions m nm (noise_rng st) batches"
  shows "length ps = sum_list (map batch_size batches)
     \<and> (\<forall>k < length ps. ps ! k < length names)
     \<and> (\<exists>evs. io_trace st' = io_trace st @ evs \<and> list_all is_imwrite evs
          \<and> map event_path evs =
              map (\<lambda>k. path_join dir (gradcam_filename (sample_idx st + k) (names ! (ps ! k))))
                [0..<length ps])
     \<and> sample_idx st' = sample_idx st + length ps"
  using assms
proof (induction batches arbitrary: st ps)
  case Nil
  then show ?case by simp
next
  case (Cons batch rest)
  from Cons.prems(1) obtain st1 where
    b: "gradcam_batch m t (Some names) dir render nm batch st = Inr st1"
    and r: "gradcam_batches m t (Some names) dir render nm rest st1 = Inr st'"
    by (auto split: sum.splits)
  define x where "x = fst (gradcam_model_input nm (noise_rng st) (fst batch))"
  define g' where "g' = snd (gradcam_model_input nm (noise_rng st) (fst batch))"
  define ps1 where "ps1 = take (batch_size batch) (map argmax_index (forward m x))"
  define ps2 where "ps2 = all_predictions m nm g' rest"
  have ps: "ps = ps1 @ ps2"
    using Cons.prems(2) by (simp add: ps1_def ps2_def x_def g'_def split: prod.splits)
  from gradcam_batch_effect [OF b ps1_def [unfolded x_def]] obtain evs1 where
    l1: "length ps1 = batch_size batch"
    and b1: "\<forall>k < length ps1. ps1 ! k < length names"
    and e1: "io_trace st1 = io_trace st @ evs1" "list_all is_imwrite evs1"
      "map event_path evs1 =
         map (\<lambda>k. path_join dir (gradcam_filename (sample_idx st + k) (names ! (ps1 ! k))))
           [0..<length ps1]"
    and i1: "sample_idx st1 = sample_idx st + length ps1"
    and g1: "noise_rng st1 = g'"
    unfolding g'_def by blast
  from Cons.IH [OF r ps2_def [folded g1]] obtain evs2 where
    l2: "length ps2 = sum_list (map batch_size rest)"
    and b2: "\<forall>k < length ps2. ps2 ! k < length names"
    and e2: "io_trace st' = io_trace st1 @ evs2" "list_all is_imwrite evs2"
      "map event_path evs2 =
         map (\<lambda>k. path_join dir (gradcam_filename (sample_idx st1 + k) (names ! (ps2 ! k))))
           [0..<length ps2]"
    and i2: "sample_idx st' = sample_idx st1 + length ps2"
    by blast
  have len: "length ps = sum_list (map batch_size (batch # rest))"
    using ps l1 l2 by simp
  have bound: "\<forall>k < length ps. ps ! k < length names"
    using b1 b2 unfolding ps by (auto simp: nth_append)
  have tr: "io_trace st' = io_trace st @ (evs1 @ evs2)"
    using e1(1) e2(1) by simp
  have al: "list_all is_imwrite (evs1 @ evs2)"
    using e1(2) e2(2) by simp
  have p1: "map event_path evs1 =
      map (\<lambda>k. path_join dir (gradcam_filename (sample_idx st + k) (names ! (ps ! k))))
        [0..<length ps1]"
    unfolding e1(3) ps by (intro nth_equalityI) (simp_all add: nth_append)
  have p2: "map event_path evs2 =
      map (\<lambda>k. path_join dir
             (gradcam_filename (sample_idx st + (length ps1 + k)) (names ! (ps ! (length ps1 + k)))))
        [0..<length ps2]"
    unfolding e2(3) ps i1 by (intro nth_equalityI) (simp_all add: nth_append add.assoc)
  have paths: "map event_path (evs1 @ evs2) =
      map (\<lambda>k. path_join dir (gradcam_filename (sample_idx st + k) (names ! (ps ! k))))
        [0..<length ps]"
  proof -
    have "length ps = length ps1 + length ps2"
      unfolding ps by simp
    then show ?thesis
      by (simp only: map_append p1 p2 map_upt_add)
  qed
  have idx: "sample_idx st' = sample_idx st + length ps"
    using i1 i2 ps by simp
  from len bound tr al paths idx show ?case
    by blast
qed

lemma gradcam_paths_distinct:
  "distinct (map (\<lambda>k. path_join dir (gradcam_filename (c + k) (f k))) [0..<n])"
proof -
  have "inj_on (\<lambda>k. path_join dir (gradcam_filename (c + k) (f k))) (set [0..<n])"
    by (rule inj_onI) (auto dest: gradcam_path_inj)
  then show ?thesis
    by (simp add: distinct_map)
qed

lemma target_layer_value:
  "5 \<le> length (modules m) \<Longrightarrow> target_layer m = Inr (modules m ! (length (modules m) - 5))"
  by (auto simp: target_layer_def py_getitem_def py_index_def Let_def nat_diff_distrib' of_nat_diff)

lemma target_layer_error:
  "length (modules m) < 5 \<Longrightarrow> target_layer m = Inl IndexError"
  by (auto simp: target_layer_def py_getitem_def py_index_def Let_def)

lemma gradcam_sample_hooks:
  assumes "hooked_grad_output m' t = hooked_grad_output m t"
  shows "gradcam_sample m' t classes dir render x outputs preds i st
     = gradcam_sample m t classes dir render x outputs preds i st"
  by (simp add: gradcam_sample_def assms cong: sum.case_cong)

lemma gradcam_samples_hooks:
  assumes "hooked_grad_output m' t = hooked_grad_output m t"
  shows "gradcam_samples m' t classes dir render x outputs preds is st
     = gradcam_samples m t classes dir render x outputs preds is st"
  by (induction "is" arbitrary: st)
    (simp_all add: gradcam_sample_hooks [OF assms] cong: sum.case_cong)

lemma gradcam_batch_hooks:
  assumes "forward m' = forward m" and "hooked_output m' t = hooked_output m t"
    and "hooked_grad_output m' t = hooked_grad_output m t"
  shows "gradcam_batch m' t classes dir render nm batch st
     = gradcam_batch m t classes dir render nm batch st"
  by (simp add: gradcam_batch_def assms(1,2) gradcam_samples_hooks [OF assms(3)] Let_def
      cong: sum.case_cong prod.case_cong)

lemma gradcam_batches_hooks:
  assumes "forward m' = forward m" and "hooked_output m' t = hooked_output m t"
    and "hooked_grad_output m' t = hooked_grad_output m t"
  shows "gradcam_batches m' t classes dir render nm batches st
     = gradcam_batches m t classes dir render nm batches st"
  by (induction batches arbitrary: st)
    (simp_all add: gradcam_batch_hooks [OF assms] cong: sum.case_cong)

text \<open>
  \<^bold>\<open>C7.\<close> Once \<^verbatim>\<open>os.makedirs\<close> has returned, the explainer takes as target the module
  five positions before the end of the model's module list, and the run is the loop over the
  batches with both hooks on that module: the activations and gradients it logs are those of
  that module, so two models that differ only in what their other modules would deliver to a
  hook give the same run. With fewer than five modules the indexing raises
  \<^verbatim>\<open>IndexError\<close>, and so does the whole run, whatever the loader and the class names are:
  nothing checks the length beforehand. When \<^verbatim>\<open>os.makedirs\<close> raises, the run ends with that
  exception, before the module list is looked at.
\<close>

theorem target_layer_fifth_from_end:
  "(os_makedirs dir True = None \<and> 5 \<le> length (modules m) \<longrightarrow>
      target_layer m = Inr (modules m ! (length (modules m) - 5))
      \<and> run_gradcam m (Some batches) classes dir nm os_makedirs render g =
          gradcam_batches m (modules m ! (length (modules m) - 5)) classes dir render nm batches
            \<lparr>gradients = [], activations = [], sample_idx = 0,
              io_trace = [Makedirs dir True], noise_rng = g\<rparr>
      \<and> (modules m' = modules m \<and> forward m' = forward m
          \<and> hooked_output m' (modules m ! (length (modules m) - 5))
              = hooked_output m (modules m ! (length (modules m) - 5))
          \<and> hooked_grad_output m' (modules m ! (length (modules m) - 5))
              = hooked_grad_output m (modules m ! (length (modules m) - 5)) \<longrightarrow>
          run_gradcam m' (Some batches) classes dir nm os_makedirs render g
            = run_gradcam m (Some batches) classes dir nm os_makedirs render g))
   \<and> (os_makedirs dir True = None \<and> length (modules m) < 5 \<longrightarrow>
      target_layer m = Inl IndexError
      \<and> run_gradcam m test_loader classes dir nm os_makedirs render g = Inl IndexError)
   \<and> (os_makedirs dir True = Some e \<longrightarrow>
      run_gradcam m test_loader classes dir nm os_makedirs render g = Inl e)"
proof -
  let ?L = "modules m ! (length (modules m) - 5)"
  let ?st0 = "\<lparr>gradients = [], activations = [], sample_idx = 0,
      io_trace = [Makedirs dir True], noise_rng = g\<rparr>"
  have run: "run_gradcam m (Some batches) classes dir nm os_makedirs render g =
      gradcam_batches m ?L classes dir render nm batches ?st0"
    if "os_makedirs dir True = None" and "5 \<le> length (modules m)"
    using that target_layer_value [OF that(2)] by (simp add: run_gradcam_def)
  have same: "run_gradcam m' (Some batches) classes dir nm os_makedirs render g
      = run_gradcam m (Some batches) classes dir nm os_makedirs render g"
    if ok: "os_makedirs dir True = None" and len: "5 \<le> length (modules m)"
      and mods: "modules m' = modules m" and fw: "forward m' = forward m"
      and ho: "hooked_output m' ?L = hooked_output m ?L"
      and hg: "hooked_grad_output m' ?L = hooked_grad_output m ?L"
  proof -
    from len mods have "target_layer m' = Inr ?L"
      using target_layer_value [of m'] by simp
    with ok have "run_gradcam m' (Some batches) classes dir nm os_makedirs render g =
        gradcam_batches m' ?L classes dir render nm batches ?st0"
      by (simp add: run_gradcam_def)
    also have "\<dots> = gradcam_batches m ?L classes dir render nm batches ?st0"
      by (rule gradcam_batches_hooks [OF fw ho hg])
    finally show ?thesis
      using run [OF ok len] by simp
  qed
  have short: "run_gradcam m test_loader classes dir nm os_makedirs render g = Inl IndexError"
    if "os_makedirs dir True = None" and "length (modules m) < 5"
    using that target_layer_error [OF that(2)] by (simp add: run_gradcam_def)
  have raised: "run_gradcam m test_loader classes dir nm os_makedirs render g = Inl e"
    if "os_makedirs dir True = Some e"
    using that by (simp add: run_gradcam_def)
  from run same short raised target_layer_value [of m] target_layer_error [of m]
  show ?thesis
    by blast
qed

theorem target_layer_fifth_from_end_witness:
  "target_layer \<lparr>modules = [10, 11, 12, 13, 14, 15 :: nat], forward = (\<lambda>x. [[1, 2]]),
      hooked_output = (\<lambda>k x. [[[[real k]]]]),
      hooked_grad_output = (\<lambda>k x a i c. Inr [[[[1]]]])\<rparr> = Inr 11
   \<and> (case run_gradcam
        \<lparr>modules = [10, 11, 12, 13, 14, 15 :: nat], forward = (\<lambda>x. [[1, 2]]),
          hooked_output = (\<lambda>k x. [[[[real k]]]]),
          hooked_grad_output = (\<lambda>k x a i c. Inr [[[[1]]]])\<rparr>
        (Some [(\<lparr>shape = [1, 1, 1, 1], data = [0]\<rparr>, [0])]) (Some [''cat'', ''dog''])
        ''out/gradcam/'' 0 (\<lambda>p f. None) (\<lambda>h :: fmap. h) (\<lambda>k. 0)
      of Inl e \<Rightarrow> Inl e | Inr st \<Rightarrow> Inr (activations st)) = Inr [[[[[11]]]]]
   \<and> run_gradcam
        \<lparr>modules = [10, 11, 12, 13, 14, 15 :: nat], forward = (\<lambda>x. [[1, 2]]),
          hooked_output = (\<lambda>k x. if k = 11 then [[[[11]]]] else []),
          hooked_grad_output = (\<lambda>k x a i c. if k = 11 then Inr [[[[1]]]] else Inl ValueError)\<rparr>
        (Some [(\<lparr>shape = [1, 1, 1, 1], data = [0]\<rparr>, [0])]) (Some [''cat'', ''dog''])
        ''out/gradcam/'' 0 (\<lambda>p f. None) (\<lambda>h :: fmap. h) (\<lambda>k. 0)
     = run_gradcam
        \<lparr>modules = [10, 11, 12, 13, 14, 15 :: nat], forward = (\<lambda>x. [[1, 2]]),
          hooked_output = (\<lambda>k x. [[[[real k]]]]),
          hooked_grad_output = (\<lambda>k x a i c. Inr [[[[1]]]])\<rparr>
        (Some [(\<lparr>shape = [1, 1, 1, 1], data = [0]\<rparr>, [0])]) (Some [''cat'', ''dog''])
        ''out/gradcam/'' 0 (\<lambda>p f. None) (\<lambda>h :: fmap. h) (\<lambda>k. 0)
   \<and> run_gradcam
        \<lparr>modules = [10, 11, 12, 13 :: nat], forward = (\<lambda>x. [[1, 2]]),
          hooked_output = (\<lambda>k x. [[[[real k]]]]),
          hooked_grad_output = (\<lambda>k x a i c. Inr [[[[1]]]])\<rparr>
        (Some [(\<lparr>shape = [1, 1, 1, 1], data = [0]\<rparr>, [0])]) (Some [''cat'', ''dog''])
        ''out/gradcam/'' 0 (\<lambda>p f. None) (\<lambda>h :: fmap. h) (\<lambda>k. 0) = Inl IndexError
   \<and> run_gradcam
        \<lparr>modules = [10, 11, 12, 13 :: nat], forward = (\<lambda>x. [[1, 2]]),
          hooked_output = (\<lambda>k x. [[[[real k]]]]),
          hooked_grad_output = (\<lambda>k x a i c. Inr [[[[1]]]])\<rparr>
        (Some [(\<lparr>shape = [1, 1, 1, 1], data = [0]\<rparr>, [0])]) (Some [''cat'', ''dog''])
        [] 0 (\<lambda>p f. if p = [] then Some OSError else None) (\<lambda>h :: fmap. h) (\<lambda>k. 0)
     = Inl OSError"
proof -
  let ?m6 = "\<lparr>modules = [10, 11, 12, 13, 14, 15 :: nat], forward = (\<lambda>x. [[1, 2]]),
      hooked_output = (\<lambda>k x. [[[[real k]]]]),
      hooked_grad_output = (\<lambda>k x a i c. Inr [[[[1]]]])\<rparr>"
  let ?m6' = "\<lparr>modules = [10, 11, 12, 13, 14, 15 :: nat], forward = (\<lambda>x. [[1, 2]]),
      hooked_output = (\<lambda>k x. if k = 11 then [[[[11]]]] else []),
      hooked_grad_output = (\<lambda>k x a i c. if k = 11 then Inr [[[[1]]]] else Inl ValueError)\<rparr>"
  let ?m4 = "\<lparr>modules = [10, 11, 12, 13 :: nat], forward = (\<lambda>x. [[1, 2]]),
      hooked_output = (\<lambda>k x. [[[[real k]]]]),
      hooked_grad_output = (\<lambda>k x a i c. Inr [[[[1]]]])\<rparr>"
  let ?l = "[(\<lparr>shape = [1, 1, 1, 1], data = [0]\<rparr>, [0 :: nat])]"
  let ?ok = "\<lambda>(p :: string) (f :: bool). None :: py_error option"
  let ?no = "\<lambda>(p :: string) (f :: bool). if p = [] then Some OSError else None"
  let ?st0 = "\<lparr>gradients = [], activations = [], sample_idx = 0,
      io_trace = [Makedirs ''out/gradcam/'' True] :: fmap io_event list, noise_rng = (\<lambda>k. 0)\<rparr>"
  note six = target_layer_fifth_from_end
    [of ?ok "''out/gradcam/''" ?m6 ?l "Some [''cat'', ''dog'']" 0 "\<lambda>h :: fmap. h" "\<lambda>k. 0" ?m6'
      "Some ?l" OSError, THEN conjunct1]
  have h6: "?ok ''out/gradcam/'' True = None \<and> 5 \<le> length (modules ?m6)"
    by simp
  from six h6 have a: "target_layer ?m6 = Inr (modules ?m6 ! (length (modules ?m6) - 5))"
    and b: "run_gradcam ?m6 (Some ?l) (Some [''cat'', ''dog'']) ''out/gradcam/'' 0 ?ok
        (\<lambda>h :: fmap. h) (\<lambda>k. 0) =
      gradcam_batches ?m6 (modules ?m6 ! (length (modules ?m6) - 5)) (Some [''cat'', ''dog''])
        ''out/gradcam/'' (\<lambda>h :: fmap. h) 0 ?l ?st0"
    and c: "modules ?m6' = modules ?m6 \<and> forward ?m6' = forward ?m6
        \<and> hooked_output ?m6' (modules ?m6 ! (length (modules ?m6) - 5))
            = hooked_output ?m6 (modules ?m6 ! (length (modules ?m6) - 5))
        \<and> hooked_grad_output ?m6' (modules ?m6 ! (length (modules ?m6) - 5))
            = hooked_grad_output ?m6 (modules ?m6 ! (length (modules ?m6) - 5)) \<longrightarrow>
      run_gradcam ?m6' (Some ?l) (Some [''cat'', ''dog'']) ''out/gradcam/'' 0 ?ok
        (\<lambda>h :: fmap. h) (\<lambda>k. 0)
      = run_gradcam ?m6 (Some ?l) (Some [''cat'', ''dog'']) ''out/gradcam/'' 0 ?ok
        (\<lambda>h :: fmap. h) (\<lambda>k. 0)"
    by blast+
  from a have a': "target_layer ?m6 = Inr 11"
    by simp
  have "(case gradcam_batches ?m6 (modules ?m6 ! (length (modules ?m6) - 5))
        (Some [''cat'', ''dog'']) ''out/gradcam/'' (\<lambda>h :: fmap. h) 0 ?l ?st0
      of Inl e \<Rightarrow> Inl e | Inr st \<Rightarrow> Inr (activations st)) = Inr [[[[[11]]]]]"
    by (simp add: gradcam_batch_def
        gradcam_model_input_def row_predictions_def argmax_def argmax_index_def tensor_len_def
        gradcam_sample_def py_getitem_def py_index_def gradcam_heatmap_def pooled_gradient_def
        channel_spatial_mean_def take_view_def view_scale_channel_def view_read_def
        channel_mean_def np_maximum0_def normalize_heatmap_def np_max_def Let_def
        numeral_2_eq_2)
  with b have b': "(case run_gradcam ?m6 (Some ?l) (Some [''cat'', ''dog'']) ''out/gradcam/'' 0
      ?ok (\<lambda>h :: fmap. h) (\<lambda>k. 0) of Inl e \<Rightarrow> Inl e | Inr st \<Rightarrow> Inr (activations st))
      = Inr [[[[[11]]]]]"
    by simp
  have "modules ?m6' = modules ?m6 \<and> forward ?m6' = forward ?m6
      \<and> hooked_output ?m6' (modules ?m6 ! (length (modules ?m6) - 5))
          = hooked_output ?m6 (modules ?m6 ! (length (modules ?m6) - 5))
      \<and> hooked_grad_output ?m6' (modules ?m6 ! (length (modules ?m6) - 5))
          = hooked_grad_output ?m6 (modules ?m6 ! (length (modules ?m6) - 5))"
    by simp
  with c have c': "run_gradcam ?m6' (Some ?l) (Some [''cat'', ''dog'']) ''out/gradcam/'' 0 ?ok
        (\<lambda>h :: fmap. h) (\<lambda>k. 0)
      = run_gradcam ?m6 (Some ?l) (Some [''cat'', ''dog'']) ''out/gradcam/'' 0 ?ok
        (\<lambda>h :: fmap. h) (\<lambda>k. 0)"
    by (rule mp)
  note four = target_layer_fifth_from_end
    [of ?ok "''out/gradcam/''" ?m4 ?l "Some [''cat'', ''dog'']" 0 "\<lambda>h :: fmap. h" "\<lambda>k. 0" ?m4
      "Some ?l" OSError, THEN conjunct2, THEN conjunct1]
  have h4: "?ok ''out/gradcam/'' True = None \<and> length (modules ?m4) < 5"
    by simp
  from four h4 have d: "run_gradcam ?m4 (Some ?l) (Some [''cat'', ''dog'']) ''out/gradcam/'' 0
      ?ok (\<lambda>h :: fmap. h) (\<lambda>k. 0) = Inl IndexError"
    by blast
  note raised = target_layer_fifth_from_end
    [of ?no "[]" ?m4 ?l "Some [''cat'', ''dog'']" 0 "\<lambda>h :: fmap. h" "\<lambda>k. 0" ?m4
      "Some ?l" OSError, THEN conjunct2, THEN conjunct2]
  have hr: "?no [] True = Some OSError"
    by simp
  from raised hr have e: "run_gradcam ?m4 (Some ?l) (Some [''cat'', ''dog'']) [] 0
      ?no (\<lambda>h :: fmap. h) (\<lambda>k. 0) = Inl OSError"
    by (rule mp)
  from a' b' c' d e show ?thesis
    by (intro conjI)
qed

text \<open>
  \<^bold>\<open>C8.\<close> A run of the explainer that completes first calls
  \<^verbatim>\<open>os.makedirs(gradcam_output_dir, exist_ok=True)\<close>, which creates the directory when it is
  missing, and then calls \<^verbatim>\<open>cv2.imwrite\<close> exactly once per sample processed, in order: the
  \<open>k\<close>-th call (counting from \<open>0\<close> across all batches) writes to the output directory joined with
  \<open>gradcam_sample_<k>_class_<name>.png\<close>, where \<open>name\<close> is the class name of the prediction for
  that sample. The paths of different samples differ, and the counter ends at the number of
  samples.
\<close>

theorem gradcam_one_image_per_sample:
  assumes "run_gradcam m (Some batches) (Some names) dir nm os_makedirs render g = Inr st"
    and "ps = all_predictions m nm g batches"
  shows "length ps = sum_list (map batch_size batches)
     \<and> sample_idx st = length ps
     \<and> length (io_trace st) = Suc (length ps)
     \<and> io_trace st ! 0 = Makedirs dir True
     \<and> (\<forall>k < length ps.
          ps ! k < length names
          \<and> is_imwrite (io_trace st ! Suc k)
          \<and> event_path (io_trace st ! Suc k) = path_join dir (gradcam_filename k (names ! (ps ! k)))
          \<and> path_join dir (gradcam_filename k (names ! (ps ! k))) =
              (if dir = [] \<or> last dir = CHR ''/'' then dir else dir @ ''/'')
                @ ''gradcam_sample_'' @ py_str k @ ''_class_'' @ names ! (ps ! k) @ ''.png'')
     \<and> distinct (map event_path (tl (io_trace st)))"
proof -
  let ?st0 = "\<lparr>gradients = [], activations = [], sample_idx = 0,
      io_trace = [Makedirs dir True], noise_rng = g\<rparr>"
  from assms(1) obtain t where
    run: "gradcam_batches m t (Some names) dir render nm batches ?st0 = Inr st"
    by (auto simp: run_gradcam_def Let_def split: sum.splits option.splits)
  have ps0: "ps = all_predictions m nm (noise_rng ?st0) batches"
    using assms(2) by simp
  from gradcam_batches_effect [OF run ps0] obtain evs where
    len: "length ps = sum_list (map batch_size batches)"
    and bound: "\<forall>k < length ps. ps ! k < length names"
    and tr: "io_trace st = [Makedirs dir True] @ evs"
    and al: "list_all is_imwrite evs"
    and paths: "map event_path evs =
        map (\<lambda>k. path_join dir (gradcam_filename (0 + k) (names ! (ps ! k)))) [0..<length ps]"
    and idx: "sample_idx st = length ps"
    by auto
  from paths have le: "length evs = length ps"
    by (metis length_map length_upt diff_zero)
  have each: "is_imwrite (evs ! k)
      \<and> event_path (evs ! k) = path_join dir (gradcam_filename k (names ! (ps ! k)))"
    if k: "k < length ps" for k
  proof -
    from al k le have "is_imwrite (evs ! k)"
      by (simp add: list_all_length)
    moreover have "event_path (evs ! k) = map event_path evs ! k"
      using k le by simp
    then have "event_path (evs ! k) = path_join dir (gradcam_filename k (names ! (ps ! k)))"
      unfolding paths using k by simp
    ultimately show ?thesis by simp
  qed
  have form: "path_join dir (gradcam_filename k a) =
      (if dir = [] \<or> last dir = CHR ''/'' then dir else dir @ ''/'')
        @ ''gradcam_sample_'' @ py_str k @ ''_class_'' @ a @ ''.png''" for k a
    unfolding path_join_filename by (simp only: gradcam_filename_def)
  have dist: "distinct (map event_path (tl (io_trace st)))"
    unfolding tr using gradcam_paths_distinct [of dir 0 "\<lambda>k. names ! (ps ! k)" "length ps"]
    by (simp add: paths)
  have nth: "io_trace st ! Suc k = evs ! k" for k
    unfolding tr by simp
  from len idx bound each form dist le show ?thesis
    unfolding nth by (simp add: tr)
qed


theorem gradcam_one_image_per_sample_witness:
  "\<exists>st. run_gradcam
       \<lparr>modules = [10, 11, 12, 13, 14, 15 :: nat], forward = (\<lambda>x. [[1, 2], [3, 1]]),
          hooked_output = (\<lambda>k x. [[[[1]]], [[[2]]]]),
          hooked_grad_output = (\<lambda>k x a i c. Inr [[[[1]]], [[[1]]]])\<rparr>
       (Some [(\<lparr>shape = [2, 1, 1, 1], data = [0, 0]\<rparr>, [0, 1]),
              (\<lparr>shape = [1, 1, 1, 1], data = [0]\<rparr>, [1])])
       (Some [''cat'', ''dog'']) ''out/gradcam/'' 0 (\<lambda>p f. None) (\<lambda>h :: fmap. h) (\<lambda>k. 0) = Inr st
     \<and> sample_idx st = 3
     \<and> length (io_trace st) = 4
     \<and> io_trace st ! 0 = Makedirs ''out/gradcam/'' True
     \<and> event_path (io_trace st ! 1) = ''out/gradcam/gradcam_sample_0_class_dog.png''
     \<and> event_path (io_trace st ! 2) = ''out/gradcam/gradcam_sample_1_class_cat.png''
     \<and> event_path (io_trace st ! 3) = ''out/gradcam/gradcam_sample_2_class_dog.png''"
proof -
  let ?m = "\<lparr>modules = [10, 11, 12, 13, 14, 15 :: nat], forward = (\<lambda>x. [[1, 2], [3, 1]]),
      hooked_output = (\<lambda>k x. [[[[1]]], [[[2]]]]),
      hooked_grad_output = (\<lambda>k x a i c. Inr [[[[1]]], [[[1]]]])\<rparr>"
  let ?l = "[(\<lparr>shape = [2, 1, 1, 1], data = [0, 0]\<rparr>, [0, 1 :: nat]),
      (\<lparr>shape = [1, 1, 1, 1], data = [0]\<rparr>, [1])]"
  have "\<exists>st. run_gradcam ?m (Some ?l) (Some [''cat'', ''dog'']) ''out/gradcam/'' 0
      (\<lambda>p f. None) (\<lambda>h :: fmap. h) (\<lambda>k. 0) = Inr st"
    by (simp add: run_gradcam_def target_layer_def py_index_def gradcam_batch_def
        gradcam_model_input_def row_predictions_def argmax_def argmax_index_def tensor_len_def
        gradcam_sample_def py_getitem_def gradcam_heatmap_def pooled_gradient_def
        channel_spatial_mean_def take_view_def view_scale_channel_def view_read_def
        channel_mean_def np_maximum0_def normalize_heatmap_def np_max_def Let_def
        numeral_2_eq_2)
  then obtain st where run: "run_gradcam ?m (Some ?l) (Some [''cat'', ''dog'']) ''out/gradcam/'' 0
      (\<lambda>p f. None) (\<lambda>h :: fmap. h) (\<lambda>k. 0) = Inr st"
    by blast
  have ps: "[1, 0, 1] = all_predictions ?m 0 (\<lambda>k. 0) ?l"
    by (simp add: gradcam_model_input_def batch_size_def argmax_index_def)
  note t = gradcam_one_image_per_sample [OF run ps]
  have p0: "py_str 0 = ''0''" and p1: "py_str 1 = ''1''" and p2: "py_str 2 = ''2''"
    by (subst py_str.simps, simp)+
  from t have a: "sample_idx st = 3" "length (io_trace st) = 4"
      "io_trace st ! 0 = Makedirs ''out/gradcam/'' True"
    by simp_all
  from t have k: "\<forall>k < 3. event_path (io_trace st ! Suc k) =
      ''out/gradcam/'' @ ''gradcam_sample_'' @ py_str k @ ''_class_''
        @ [''cat'', ''dog''] ! ([1, 0, 1] ! k) @ ''.png''"
    by simp
  from k [rule_format, of 0] k [rule_format, of 1] k [rule_format, of 2] p0 p1 p2
  have b: "event_path (io_trace st ! 1) = ''out/gradcam/gradcam_sample_0_class_dog.png''"
    "event_path (io_trace st ! 2) = ''out/gradcam/gradcam_sample_1_class_cat.png''"
    "event_path (io_trace st ! 3) = ''out/gradcam/gradcam_sample_2_class_dog.png''"
    by (simp_all add: numeral_2_eq_2 numeral_3_eq_3)
  from run a b show ?thesis by blast
qed

section \<open>The in-place scaling of the logged activation\<close>

lemma view_scale_channel_frame:
  assumes "view_scale_channel acts v j w = Inr acts'"
  shows "length acts' = length acts
     \<and> (\<forall>k. k \<noteq> fst v \<longrightarrow> acts' ! k = acts ! k)
     \<and> length (acts' ! fst v) = length (acts ! fst v)
     \<and> (\<forall>l. l \<noteq> snd v \<longrightarrow> acts' ! fst v ! l = acts ! fst v ! l)"
proof -
  from assms obtain c where
    a: "acts' = acts[fst v := (acts ! fst v)[snd v := c]]"
    by (auto simp: view_scale_channel_def Let_def split: if_splits)
  show ?thesis
  proof (cases "fst v < length acts")
    case True
    then show ?thesis
      unfolding a by (simp add: nth_list_update)
  next
    case False
    then have "acts[fst v := (acts ! fst v)[snd v := c]] = acts"
      by (simp add: list_update_beyond)
    then show ?thesis
      unfolding a by simp
  qed
qed

lemma scale_channels_frame:
  assumes "scale_channels v ws js acts = Inr acts'"
  shows "length acts' = length acts
     \<and> (\<forall>k. k \<noteq> fst v \<longrightarrow> acts' ! k = acts ! k)
     \<and> length (acts' ! fst v) = length (acts ! fst v)
     \<and> (\<forall>l. l \<noteq> snd v \<longrightarrow> acts' ! fst v ! l = acts ! fst v ! l)"
  using assms
proof (induction js arbitrary: acts)
  case Nil
  then show ?case by simp
next
  case (Cons j js)
  from Cons.prems obtain acts1 where
    s1: "view_scale_channel acts v j (ws ! j) = Inr acts1"
    and rest: "scale_channels v ws js acts1 = Inr acts'"
    by (auto split: sum.splits)
  from view_scale_channel_frame [OF s1] Cons.IH [OF rest] show ?case
    by simp
qed

lemma take_view_Inr:
  assumes "take_view acts i = Inr v"
  shows "acts \<noteq> [] \<and> v = (length acts - 1, i) \<and> i < length (last acts)"
proof -
  from assms have ne: "acts \<noteq> []"
    by (auto simp: take_view_def py_index_def Let_def split: if_splits)
  then have "py_index (length acts) (- 1) = Inr (length acts - 1)"
    by (cases acts rule: rev_cases) (simp_all add: py_index_def)
  with assms ne show ?thesis
    by (auto simp: take_view_def last_conv_nth split: if_splits)
qed

lemma gradcam_heatmap_frame:
  assumes "gradcam_heatmap grads acts i = Inr (h, acts')"
  shows "acts \<noteq> [] \<and> i < length (last acts)
     \<and> length acts' = length acts
     \<and> (\<forall>k. k \<noteq> length acts - 1 \<longrightarrow> acts' ! k = acts ! k)
     \<and> length (acts' ! (length acts - 1)) = length (acts ! (length acts - 1))
     \<and> (\<forall>l. l \<noteq> i \<longrightarrow> acts' ! (length acts - 1) ! l = acts ! (length acts - 1) ! l)"
proof -
  from assms obtain v ws where
    v: "take_view acts i = Inr v"
    and sc: "scale_channels v ws [0..<length ws] acts = Inr acts'"
    by (auto simp: gradcam_heatmap_def split: sum.splits)
  from take_view_Inr [OF v] scale_channels_frame [OF sc] show ?thesis
    by simp
qed

lemma gradcam_sample_heatmap:
  assumes "gradcam_sample m t classes dir render x outputs preds i st = Inr st'"
  shows "\<exists>grad h. hooked_grad_output m t x (activations st) i (preds ! i) = Inr grad
     \<and> gradients st' = gradients st @ [grad]
     \<and> gradcam_heatmap (gradients st @ [grad]) (activations st) i = Inr (h, activations st')"
proof -
  from assms obtain p where p: "py_getitem preds (int i) = Inr p"
    by (auto simp: gradcam_sample_def split: sum.splits)
  from py_getitem_Inr [OF p] have pv: "p = preds ! i"
    by simp
  from assms p obtain grad where
    g: "hooked_grad_output m t x (activations st) i p = Inr grad"
    by (auto simp: gradcam_sample_def split: sum.splits)
  from assms p g obtain h acts' where
    hm: "gradcam_heatmap (gradients st @ [grad]) (activations st) i = Inr (h, acts')"
    by (auto simp: gradcam_sample_def Let_def split: sum.splits)
  from assms p g hm have "gradients st' = gradients st @ [grad] \<and> activations st' = acts'"
    by (auto simp: gradcam_sample_def Let_def split: sum.splits option.splits)
  with g hm pv show ?thesis
    by auto
qed

lemma gradcam_sample_frame:
  assumes "gradcam_sample m t classes dir render x outputs preds i st = Inr st'"
  shows "activations st \<noteq> []
     \<and> length (activations st') = length (activations st)
     \<and> (\<forall>k. k \<noteq> length (activations st) - 1 \<longrightarrow> activations st' ! k = activations st ! k)
     \<and> (\<forall>l. l \<noteq> i \<longrightarrow>
          activations st' ! (length (activations st) - 1) ! l
            = activations st ! (length (activations st) - 1) ! l)"
proof -
  from gradcam_sample_heatmap [OF assms] obtain grad h where
    "gradcam_heatmap (gradients st @ [grad]) (activations st) i = Inr (h, activations st')"
    by blast
  from gradcam_heatmap_frame [OF this] show ?thesis
    by simp
qed

lemma gradcam_samples_frame:
  assumes "gradcam_samples m t classes dir render x outputs preds is st = Inr st'"
  shows "length (activations st') = length (activations st)
     \<and> (\<forall>k. k \<noteq> length (activations st) - 1 \<longrightarrow> activations st' ! k = activations st ! k)
     \<and> (\<forall>l. l \<notin> set is \<longrightarrow>
          activations st' ! (length (activations st) - 1) ! l
            = activations st ! (length (activations st) - 1) ! l)"
  using assms
proof (induction "is" arbitrary: st)
  case Nil
  then show ?case by simp
next
  case (Cons i "is")
  from Cons.prems obtain st1 where
    s1: "gradcam_sample m t classes dir render x outputs preds i st = Inr st1"
    and rest: "gradcam_samples m t classes dir render x outputs preds is st1 = Inr st'"
    by (auto split: sum.splits)
  from gradcam_sample_frame [OF s1] Cons.IH [OF rest] show ?case
    by simp
qed

lemma gradcam_batch_frame:
  assumes "gradcam_batch m t classes dir render nm batch st = Inr st'"
  shows "length (activations st) < length (activations st')
     \<and> (\<forall>k < length (activations st). activations st' ! k = activations st ! k)"
proof -
  obtain x g' where xg: "gradcam_model_input nm (noise_rng st) (fst batch) = (x, g')"
    by (cases "gradcam_model_input nm (noise_rng st) (fst batch)")
  let ?st1 = "st\<lparr>noise_rng := g', activations := activations st @ [hooked_output m t x]\<rparr>"
  from assms xg obtain preds n where
    "gradcam_samples m t classes dir render x (forward m x) preds [0..<n] ?st1 = Inr st'"
    by (auto simp: gradcam_batch_def Let_def split: sum.splits)
  from gradcam_samples_frame [OF this] show ?thesis
    by (simp add: nth_append)
qed

lemma gradcam_batches_frame:
  assumes "gradcam_batches m t classes dir render nm batches st = Inr st'"
  shows "length (activations st) \<le> length (activations st')
     \<and> (\<forall>k < length (activations st). activations st' ! k = activations st ! k)"
  using assms
proof (induction batches arbitrary: st)
  case Nil
  then show ?case by simp
next
  case (Cons batch rest)
  from Cons.prems obtain st1 where
    b: "gradcam_batch m t classes dir render nm batch st = Inr st1"
    and r: "gradcam_batches m t classes dir render nm rest st1 = Inr st'"
    by (auto split: sum.splits)
  from gradcam_batch_frame [OF b] Cons.IH [OF r] show ?case
    by auto
qed

text \<open>
  \<^bold>\<open>C10.\<close> \<^verbatim>\<open>activation\<close> is a view into the last entry of the activations log, and the
  channel weighting writes through it. When the explainer has processed sample \<open>i\<close> of a batch
  (the gradient delivered by the backward hook having as many channels as the captured
  activation), its activations log is the log from before the sample with slice \<open>i\<close> of the
  last entry replaced by the activation scaled channel by channel with the gradient weights;
  nothing else in the log has changed. The slice is never restored: it still holds the scaled
  activation after the remaining samples of the batch, and after all later batches of the run.
\<close>

theorem gradcam_scales_logged_activation:
  assumes "gradcam_sample m t classes dir render x outputs preds i st = Inr st1"
    and "hooked_grad_output m t x (activations st) i (preds ! i) = Inr grad"
    and "length (grad ! i) = length (last (activations st) ! i)"
    and "gradcam_samples m t classes dir render x outputs preds is st1 = Inr st2"
    and "i \<notin> set is"
    and "gradcam_batches m t classes dir render nm rest st2 = Inr st3"
  shows "\<exists>ws. pooled_gradient (grad ! i) = Inr ws
     \<and> activations st1 = (activations st)[length (activations st) - 1 :=
          (last (activations st))[i := scaled_activation ws (last (activations st) ! i)]]
     \<and> activations st1 ! (length (activations st) - 1) ! i
          = scaled_activation ws (last (activations st) ! i)
     \<and> activations st2 ! (length (activations st) - 1) ! i
          = scaled_activation ws (last (activations st) ! i)
     \<and> activations st3 ! (length (activations st) - 1) ! i
          = scaled_activation ws (last (activations st) ! i)"
proof -
  let ?acts = "activations st"
  let ?n = "length ?acts - 1"
  from gradcam_sample_heatmap [OF assms(1)] assms(2) obtain h where
    g1: "gradients st1 = gradients st @ [grad]"
    and hm: "gradcam_heatmap (gradients st @ [grad]) ?acts i = Inr (h, activations st1)"
    by auto
  from gradcam_heatmap_frame [OF hm] have ne: "?acts \<noteq> []" and il: "i < length (last ?acts)"
    and len1: "length (activations st1) = length ?acts"
    by simp_all
  from hm have ig: "i < length grad"
    by (auto simp: gradcam_heatmap_def py_getitem_last dest: py_getitem_Inr split: sum.splits)
  have unf: "gradcam_heatmap (gradients st @ [grad]) ?acts i =
     (case pooled_gradient (last (gradients st @ [grad]) ! i) of Inl e \<Rightarrow> Inl e | Inr ws \<Rightarrow>
      case channel_mean (scaled_activation ws (last ?acts ! i)) of
        Inl e \<Rightarrow> Inl e | Inr m \<Rightarrow>
      case normalize_heatmap (np_maximum0 m) of Inl e \<Rightarrow> Inl e | Inr h \<Rightarrow>
        Inr (h, ?acts[length ?acts - 1 :=
                 (last ?acts)[i := scaled_activation ws (last ?acts ! i)]]))"
    using ne il ig assms(3) by (intro gradcam_heatmap_unfold) simp_all
  from hm unf obtain ws where
    ws: "pooled_gradient (grad ! i) = Inr ws"
    and a1: "activations st1 = ?acts[?n := (last ?acts)[i := scaled_activation ws (last ?acts ! i)]]"
    by (auto split: sum.splits)
  have n: "?n < length ?acts"
    using ne by simp
  have s1: "activations st1 ! ?n ! i = scaled_activation ws (last ?acts ! i)"
    unfolding a1 using n il by simp
  from gradcam_samples_frame [OF assms(4)] assms(5) len1
  have len2: "length (activations st2) = length ?acts"
    and s2: "activations st2 ! ?n ! i = activations st1 ! ?n ! i"
    by simp_all
  from gradcam_batches_frame [OF assms(6)] len2 n
  have s3: "activations st3 ! ?n ! i = activations st2 ! ?n ! i"
    by simp
  from ws a1 s1 s2 s3 show ?thesis
    by simp
qed

theorem gradcam_scales_logged_activation_witness:
  "\<exists>st1 st2 st3.
     gradcam_sample
       \<lparr>modules = [10, 11, 12, 13, 14, 15 :: nat], forward = (\<lambda>x. [[1, 2], [3, 1]]),
         hooked_output = (\<lambda>k x. [[[[1, - 2]], [[1, 2]]], [[[5, 5]], [[7, 7]]]]),
         hooked_grad_output = (\<lambda>k x a i c. Inr [[[[2, 4]], [[1, 1]]], [[[2, 4]], [[1, 1]]]])\<rparr>
       11 (Some [''cat'', ''dog'']) ''out'' (\<lambda>h. ()) \<lparr>shape = [2, 1, 1, 2], data = [0, 0, 0, 0]\<rparr>
       [[1, 2], [3, 1]] [1, 0] 0
       \<lparr>gradients = [], activations = [[[[[1, - 2]], [[1, 2]]], [[[5, 5]], [[7, 7]]]]],
         sample_idx = 0, io_trace = [Makedirs ''out'' True], noise_rng = (\<lambda>k. 0)\<rparr> = Inr st1
   \<and> gradcam_samples
       \<lparr>modules = [10, 11, 12, 13, 14, 15 :: nat], forward = (\<lambda>x. [[1, 2], [3, 1]]),
         hooked_output = (\<lambda>k x. [[[[1, - 2]], [[1, 2]]], [[[5, 5]], [[7, 7]]]]),
         hooked_grad_output = (\<lambda>k x a i c. Inr [[[[2, 4]], [[1, 1]]], [[[2, 4]], [[1, 1]]]])\<rparr>
       11 (Some [''cat'', ''dog'']) ''out'' (\<lambda>h. ()) \<lparr>shape = [2, 1, 1, 2], data = [0, 0, 0, 0]\<rparr>
       [[1, 2], [3, 1]] [1, 0] [1] st1 = Inr st2
   \<and> gradcam_batches
       \<lparr>modules = [10, 11, 12, 13, 14, 15 :: nat], forward = (\<lambda>x. [[1, 2], [3, 1]]),
         hooked_output = (\<lambda>k x. [[[[1, - 2]], [[1, 2]]], [[[5, 5]], [[7, 7]]]]),
         hooked_grad_output = (\<lambda>k x a i c. Inr [[[[2, 4]], [[1, 1]]], [[[2, 4]], [[1, 1]]]])\<rparr>
       11 (Some [''cat'', ''dog'']) ''out'' (\<lambda>h. ()) 0
       [(\<lparr>shape = [1, 1, 1, 2], data = [0, 0]\<rparr>, [1])] st2 = Inr st3
   \<and> run_gradcam
       \<lparr>modules = [10, 11, 12, 13, 14, 15 :: nat], forward = (\<lambda>x. [[1, 2], [3, 1]]),
         hooked_output = (\<lambda>k x. [[[[1, - 2]], [[1, 2]]], [[[5, 5]], [[7, 7]]]]),
         hooked_grad_output = (\<lambda>k x a i c. Inr [[[[2, 4]], [[1, 1]]], [[[2, 4]], [[1, 1]]]])\<rparr>
       (Some [(\<lparr>shape = [2, 1, 1, 2], data = [0, 0, 0, 0]\<rparr>, [0, 1]),
              (\<lparr>shape = [1, 1, 1, 2], data = [0, 0]\<rparr>, [1])])
       (Some [''cat'', ''dog'']) ''out'' 0 (\<lambda>p f. None) (\<lambda>h. ()) (\<lambda>k. 0) = Inr st3
   \<and> activations st1 = [[[[[3, - 6]], [[1, 2]]], [[[5, 5]], [[7, 7]]]]]
   \<and> activations st2 ! 0 ! 0 = [[[3, - 6]], [[1, 2]]]
   \<and> activations st3 ! 0 ! 0 = [[[3, - 6]], [[1, 2]]]
   \<and> activations st3 ! 0 ! 0 \<noteq> [[[1, - 2]], [[1, 2 :: real]]]"
proof -
  let ?H = "[[[[1, - 2]], [[1, 2]]], [[[5, 5]], [[7, 7 :: real]]]]"
  let ?G = "[[[[2, 4]], [[1, 1]]], [[[2, 4]], [[1, 1 :: real]]]]"
  let ?m = "\<lparr>modules = [10, 11, 12, 13, 14, 15 :: nat], forward = (\<lambda>x. [[1, 2], [3, 1]]),
      hooked_output = (\<lambda>k x. ?H), hooked_grad_output = (\<lambda>k x a i c. Inr ?G)\<rparr>"
  let ?x = "\<lparr>shape = [2, 1, 1, 2], data = [0, 0, 0, 0]\<rparr>"
  let ?b1 = "(?x, [0, 1 :: nat])"
  let ?b2 = "(\<lparr>shape = [1, 1, 1, 2], data = [0, 0]\<rparr>, [1 :: nat])"
  let ?names = "Some [''cat'', ''dog'']"
  let ?o = "[[1, 2], [3, 1 :: real]]"
  let ?st = "\<lparr>gradients = [], activations = [?H],
      sample_idx = 0, io_trace = [Makedirs ''out'' True :: unit io_event],
      noise_rng = (\<lambda>k. 0)\<rparr>"
  note defs = gradcam_batch_def gradcam_model_input_def row_predictions_def argmax_def
    argmax_index_def tensor_len_def gradcam_sample_def py_getitem_def py_index_def
    gradcam_heatmap_def pooled_gradient_def channel_spatial_mean_def take_view_def
    view_scale_channel_def view_read_def channel_mean_def np_maximum0_def
    normalize_heatmap_def np_max_def Let_def
  have "\<exists>st1. gradcam_sample ?m 11 ?names ''out'' (\<lambda>h. ()) ?x ?o [1, 0] 0 ?st = Inr st1"
    by (simp add: defs)
  then obtain st1 where
    r1: "gradcam_sample ?m 11 ?names ''out'' (\<lambda>h. ()) ?x ?o [1, 0] 0 ?st = Inr st1"
    by blast
  then have g1: "gradients st1 = [?G]" and i1: "sample_idx st1 = 1"
    by (auto simp: defs)
  have w: "pooled_gradient (?G ! 0) = Inr [3, 1]"
    by (simp add: pooled_gradient_def channel_spatial_mean_def)
  have sc: "scaled_activation [3, 1] [[[1, - 2]], [[1, 2]]] = [[[3, - 6]], [[1, 2]]]"
    by (simp add: scaled_activation_def)
  have hyp2: "hooked_grad_output ?m 11 ?x (activations ?st) 0 ([1, 0] ! 0) = Inr ?G"
    by simp
  have hyp3: "length (?G ! 0) = length (last (activations ?st) ! 0)"
    by simp
  have a1: "activations st1 = [[[[[3, - 6]], [[1, 2]]], [[[5, 5]], [[7, 7]]]]]"
    using r1 by (auto simp: defs)
  have "\<exists>st2. gradcam_samples ?m 11 ?names ''out'' (\<lambda>h. ()) ?x ?o [1, 0] [1] st1 = Inr st2"
    by (simp add: defs g1 a1)
  then obtain st2 where
    r2: "gradcam_samples ?m 11 ?names ''out'' (\<lambda>h. ()) ?x ?o [1, 0] [1] st1 = Inr st2"
    by blast
  then have a2: "activations st2 = [[[[[3, - 6]], [[1, 2]]], [[[15, 15]], [[7, 7]]]]]"
    and g2: "gradients st2 = [?G, ?G]"
    by (auto simp: defs g1 a1 split: sum.splits)
  have "\<exists>st3. gradcam_batches ?m 11 ?names ''out'' (\<lambda>h. ()) 0 [?b2] st2 = Inr st3"
    by (simp add: defs g2 a2)
  then obtain st3 where
    r3: "gradcam_batches ?m 11 ?names ''out'' (\<lambda>h. ()) 0 [?b2] st2 = Inr st3"
    by blast
  have tl: "target_layer ?m = Inr 11"
    by (simp add: target_layer_def py_getitem_def py_index_def)
  have b1: "gradcam_batch ?m 11 ?names ''out'' (\<lambda>h. ()) 0 ?b1
      \<lparr>gradients = [], activations = [], sample_idx = 0,
        io_trace = [Makedirs ''out'' True :: unit io_event], noise_rng = (\<lambda>k. 0)\<rparr> = Inr st2"
    using r1 r2
    by (simp add: gradcam_batch_def gradcam_model_input_def row_predictions_def argmax_def
        argmax_index_def tensor_len_def Let_def upt_conv_Cons)
  have "run_gradcam ?m (Some [?b1, ?b2]) ?names ''out'' 0 (\<lambda>p f. None) (\<lambda>h. ()) (\<lambda>k. 0)
      = gradcam_batches ?m 11 ?names ''out'' (\<lambda>h. ()) 0 [?b1, ?b2]
          \<lparr>gradients = [], activations = [], sample_idx = 0,
            io_trace = [Makedirs ''out'' True :: unit io_event], noise_rng = (\<lambda>k. 0)\<rparr>"
    unfolding run_gradcam_def tl by simp
  also have "\<dots> = gradcam_batches ?m 11 ?names ''out'' (\<lambda>h. ()) 0 [?b2] st2"
    by (simp only: gradcam_batches.simps b1 sum.case)
  finally have run: "run_gradcam ?m (Some [?b1, ?b2]) ?names ''out'' 0 (\<lambda>p f. None) (\<lambda>h. ())
      (\<lambda>k. 0) = Inr st3"
    by (simp only: r3)
  from gradcam_scales_logged_activation [OF r1 hyp2 hyp3 r2 _ r3] w sc
  have s: "activations st1 ! (length (activations ?st) - 1) ! 0 = [[[3, - 6]], [[1, 2]]]
      \<and> activations st2 ! (length (activations ?st) - 1) ! 0 = [[[3, - 6]], [[1, 2]]]
      \<and> activations st3 ! (length (activations ?st) - 1) ! 0 = [[[3, - 6]], [[1, 2]]]"
    by auto
  then have s2: "activations st2 ! 0 ! 0 = [[[3, - 6]], [[1, 2]]]"
    and s3: "activations st3 ! 0 ! 0 = [[[3, - 6]], [[1, 2]]]"
    by simp_all
  have ne: "activations st3 ! 0 ! 0 \<noteq> [[[1, - 2]], [[1, 2 :: real]]]"
    unfolding s3 by simp
  from r1 r2 r3 run a1 s2 s3 ne show ?thesis
    by blast
qed


end
